theory Spec2Isabelle
  imports Main "HOL-Library.Word"
begin

unbundle bit_operations_syntax

section \<open>Process-exclusive loopback capture: the program \<^verbatim>\<open>audio-capture.cpp\<close>\<close>

text \<open>
  The program is one function, \<^verbatim>\<open>wmain\<close>, that talks to the audio platform through
  COM calls and to its consumer through \<^verbatim>\<open>_write(1, ...)\<close>. The embedding keeps the
  control flow of \<^verbatim>\<open>wmain\<close> and makes the outside world explicit:
  \<^item> every answer of the platform (a status code, a buffer, the return value of a write,
    the console control handler having run) is read from a \<open>platform\<close> record;
  \<^item> every call the program makes is appended to a list of events, in program order;
  \<^item> the two loops that may run for ever take fuel and return \<open>None\<close> when it runs out.
\<close>

subsection \<open>Platform types and constants\<close>

type_synonym hresult = "32 word"
type_synonym byte = "8 word"

text \<open>\<^verbatim>\<open>FAILED(hr)\<close> of the platform headers: the status, read as a signed 32-bit value, is negative.\<close>

definition FAILED :: "hresult \<Rightarrow> bool" where
  "FAILED hr = (sint hr < 0)"

text \<open>Values of the platform headers' constants that \<^verbatim>\<open>wmain\<close> names.\<close>

definition S_OK :: hresult where "S_OK = 0"
definition E_NOTIMPL :: hresult where "E_NOTIMPL = 0x80004001"
definition E_FAIL :: hresult where "E_FAIL = 0x80004005"
definition AUDCLNT_S_BUFFER_EMPTY :: hresult where "AUDCLNT_S_BUFFER_EMPTY = 0x08890001"
definition WAVE_FORMAT_EXTENSIBLE :: "16 word" where "WAVE_FORMAT_EXTENSIBLE = 0xFFFE"
definition AUDCLNT_BUFFERFLAGS_SILENT :: "32 word" where "AUDCLNT_BUFFERFLAGS_SILENT = 0x2"
definition WAIT_OBJECT_0 :: "32 word" where "WAIT_OBJECT_0 = 0"

record GUID =
  Data1 :: "32 word"
  Data2 :: "16 word"
  Data3 :: "16 word"
  Data4 :: "byte list"

record WAVEFORMATEX =
  wFormatTag :: "16 word"
  nChannels :: "16 word"
  nSamplesPerSec :: "32 word"
  nAvgBytesPerSec :: "32 word"
  nBlockAlign :: "16 word"
  wBitsPerSample :: "16 word"
  cbSize :: "16 word"

text \<open>
  The memory \<^verbatim>\<open>waveFormat\<close> points to, read as a \<^verbatim>\<open>WAVEFORMATEXTENSIBLE\<close>. The fields
  after \<open>Format\<close> are read by \<^verbatim>\<open>wmain\<close> only when the tag is \<^verbatim>\<open>WAVE_FORMAT_EXTENSIBLE\<close>.
\<close>

record WAVEFORMATEXTENSIBLE =
  Format :: WAVEFORMATEX
  wValidBitsPerSample :: "16 word"
  dwChannelMask :: "32 word"
  SubFormat :: GUID

subsection \<open>The header on the data channel (lines 195-202)\<close>

record AudioHeader =
  sampleRate :: "32 word"
  channels :: "16 word"
  bitsPerSample :: "16 word"
  formatTag :: "32 word"

text \<open>
  The struct is packed (\<^verbatim>\<open>#pragma pack(push, 1)\<close>) and written as it lies in memory; the
  targets of the program are little-endian, so its image is the fields in order, each
  least significant byte first.
\<close>

definition le16 :: "16 word \<Rightarrow> byte list" where
  "le16 x = [ucast x, ucast (drop_bit 8 x)]"

definition le32 :: "32 word \<Rightarrow> byte list" where
  "le32 x = [ucast x, ucast (drop_bit 8 x), ucast (drop_bit 16 x), ucast (drop_bit 24 x)]"

definition header_bytes :: "AudioHeader \<Rightarrow> byte list" where
  "header_bytes h = le32 (sampleRate h) @ le16 (channels h) @ le16 (bitsPerSample h) @ le32 (formatTag h)"

definition sizeof_header :: "32 word" where
  "sizeof_header = 12"

subsection \<open>What the program observes and what it does\<close>

text \<open>
  One answer of \<^verbatim>\<open>GetBuffer\<close>: the status and the three out-parameters the loop reads.
  \<open>pk_data\<close> is the memory at \<^verbatim>\<open>data\<close>, as far as the buffer of the platform reaches.
\<close>

record packet =
  pk_hr :: hresult
  pk_data :: "byte list"
  pk_frames :: "32 word"
  pk_flags :: "32 word"

text \<open>
  The answers of the outside world. The three calls of the capture loop are answered by
  call number; \<open>write_ret k n\<close> is what the \<open>k\<close>-th \<^verbatim>\<open>_write\<close> returns when asked for \<open>n\<close>
  bytes. \<open>ctrl_c k\<close> says that \<^verbatim>\<open>CtrlHandler\<close> has run by the time \<^verbatim>\<open>g_running\<close> is read
  for the \<open>k\<close>-th time. \<open>hrActivate\<close> and \<open>pActivated\<close> are what \<^verbatim>\<open>ActivateCompleted\<close> stored.
\<close>

record platform =
  CoInitializeEx_hr :: hresult
  Activate_hr :: hresult
  asyncOp :: bool
  hrActivate :: hresult
  pActivated :: bool
  QI_hr :: hresult
  QI_client :: bool
  GetMixFormat_hr :: hresult
  GetMixFormat_fmt :: WAVEFORMATEXTENSIBLE
  Initialize_hr :: hresult
  SetEventHandle_hr :: hresult
  GetService_hr :: hresult
  Start_hr :: hresult
  write_ret :: "nat \<Rightarrow> 32 word \<Rightarrow> int"
  wait_ret :: "nat \<Rightarrow> 32 word"
  GetBuffer_ret :: "nat \<Rightarrow> packet"
  ctrl_c :: "nat \<Rightarrow> bool"

text \<open>The lines \<^verbatim>\<open>wmain\<close> and \<^verbatim>\<open>CompletionHandler::Wait\<close> print on the diagnostic channel.\<close>

datatype diag =
    Usage
  | ExcludingPid "32 word"
  | CoInitializeExFailed hresult
  | ActivateFailed hresult
  | ActivateResult hresult bool
  | QIResult hresult bool
  | GetClientFailed hresult
  | MixFormatFallback hresult
  | FormatLine AudioHeader bool
  | InitializeFailed hresult
  | SetEventHandleFailed hresult
  | GetServiceFailed hresult
  | HeaderWriteFailed
  | StartFailed hresult
  | CaptureStarted "32 word"
  | StoppingCapture

text \<open>The buffer a \<^verbatim>\<open>_write\<close> reads from: \<^verbatim>\<open>&header\<close>, the static \<^verbatim>\<open>zeros\<close>, or \<^verbatim>\<open>data\<close>.\<close>

datatype wsource = HeaderBuf AudioHeader | ZerosBuf | SampleBuf "byte list"

text \<open>
  The calls of the program. \<open>Write src n w\<close> is \<^verbatim>\<open>_write(1, src, n)\<close> returning \<open>w\<close>;
  \<open>GetBuffer hr frames flags\<close> is a call with what it returned; \<open>CheckRunning b\<close> is a read
  of the volatile \<^verbatim>\<open>g_running\<close> that gave \<open>b\<close>.
\<close>

datatype event =
    Fprintf diag
  | CoInitializeEx
  | ActivateAudioInterfaceAsync "32 word"
  | HandlerRelease
  | AsyncOpRelease
  | GetMixFormat
  | Initialize WAVEFORMATEXTENSIBLE
  | CoTaskMemFree
  | CreateEvent
  | SetEventHandle
  | GetService
  | Write wsource "32 word" int
  | Start
  | CheckRunning bool
  | WaitForSingleObject "32 word"
  | GetBuffer hresult "32 word" "32 word"
  | ReleaseBuffer "32 word"
  | Stop
  | CaptureClientRelease
  | AudioClientRelease
  | CloseHandle
  | CoUninitialize

subsection \<open>The argument (line 214)\<close>

text \<open>
  \<^verbatim>\<open>_wtoi\<close> belongs to the C runtime, not to the repository. Its documented behaviour:
  skip white space, read an optional sign, read decimal digits up to the first character
  that is not one; the result is 0 when there is no digit, and \<^verbatim>\<open>INT_MAX\<close> or
  \<^verbatim>\<open>INT_MIN\<close> when the number does not fit. An argument is a \<open>string\<close>: its wide
  characters are taken in the range of \<open>char\<close>.
\<close>

definition iswspace :: "char \<Rightarrow> bool" where
  "iswspace c = (c \<in> set [CHR '' '', CHR 0x09, CHR 0x0A, CHR 0x0B, CHR 0x0C, CHR 0x0D])"

definition iswdigit :: "char \<Rightarrow> bool" where
  "iswdigit c = (48 \<le> (of_char c :: nat) \<and> (of_char c :: nat) \<le> 57)"

definition digit_val :: "char \<Rightarrow> int" where
  "digit_val c = int (of_char c :: nat) - 48"

fun read_digits :: "int \<Rightarrow> string \<Rightarrow> int" where
  "read_digits acc [] = acc"
| "read_digits acc (c # cs) =
     (if iswdigit c then read_digits (acc * 10 + digit_val c) cs else acc)"

definition INT_MAX :: int where "INT_MAX = 2147483647"
definition INT_MIN :: int where "INT_MIN = - 2147483648"

definition wtoi :: "string \<Rightarrow> int" where
  "wtoi s =
     (case dropWhile iswspace s of
        [] \<Rightarrow> 0
      | c # cs \<Rightarrow>
          if c = CHR ''-'' then max INT_MIN (- read_digits 0 cs)
          else if c = CHR ''+'' then min INT_MAX (read_digits 0 cs)
          else min INT_MAX (read_digits 0 (c # cs)))"

text \<open>\<^verbatim>\<open>static_cast<DWORD>(_wtoi(argv[1]))\<close>\<close>

definition excludePid_of :: "string \<Rightarrow> 32 word" where
  "excludePid_of arg = word_of_int (wtoi arg)"

subsection \<open>Waiting for the activation (lines 164-176)\<close>

text \<open>
  \<^verbatim>\<open>CompletionHandler::Wait\<close>, once the completion has been signalled: the status it
  returns, whether \<^verbatim>\<open>*ppClient\<close> is set, and the two lines it prints.
\<close>

definition Wait :: "platform \<Rightarrow> hresult \<times> bool \<times> event list" where
  "Wait env =
     (if FAILED (hrActivate env) \<or> \<not> pActivated env
      then (if FAILED (hrActivate env) then hrActivate env else E_FAIL, False,
            [Fprintf (ActivateResult (hrActivate env) (pActivated env))])
      else (QI_hr env, QI_client env,
            [Fprintf (ActivateResult (hrActivate env) (pActivated env)),
             Fprintf (QIResult (QI_hr env) (QI_client env))]))"

subsection \<open>The format (lines 279-322)\<close>

text \<open>The descriptor built at lines 285-304; \<^verbatim>\<open>cbSize\<close> is the difference of the two struct sizes.\<close>

definition KSDATAFORMAT_SUBTYPE_IEEE_FLOAT_LOCAL :: GUID where
  "KSDATAFORMAT_SUBTYPE_IEEE_FLOAT_LOCAL =
     \<lparr>Data1 = 0x00000003, Data2 = 0x0000, Data3 = 0x0010,
      Data4 = [0x80, 0x00, 0x00, 0xAA, 0x00, 0x38, 0x9B, 0x71]\<rparr>"

definition fallbackFmt :: WAVEFORMATEXTENSIBLE where
  "fallbackFmt =
     \<lparr>Format =
        \<lparr>wFormatTag = WAVE_FORMAT_EXTENSIBLE,
         nChannels = 2,
         nSamplesPerSec = 48000,
         nAvgBytesPerSec = 48000 * ucast (2 * (32 div 8) :: 16 word),
         nBlockAlign = 2 * (32 div 8),
         wBitsPerSample = 32,
         cbSize = 40 - 18\<rparr>,
      wValidBitsPerSample = 32,
      dwChannelMask = 3,
      SubFormat = KSDATAFORMAT_SUBTYPE_IEEE_FLOAT_LOCAL\<rparr>"

text \<open>Lines 288-308: the format \<^verbatim>\<open>waveFormat\<close> points to afterwards, and \<^verbatim>\<open>usingFallback\<close>.\<close>

definition negotiate :: "hresult \<Rightarrow> WAVEFORMATEXTENSIBLE \<Rightarrow> WAVEFORMATEXTENSIBLE \<times> bool" where
  "negotiate hr mix = (if FAILED hr then (fallbackFmt, True) else (mix, False))"

text \<open>Lines 310-320: the four values that go into the header.\<close>

definition resolve :: "WAVEFORMATEXTENSIBLE \<Rightarrow> AudioHeader" where
  "resolve fmt =
     (let h = \<lparr>sampleRate = nSamplesPerSec (Format fmt),
               channels = nChannels (Format fmt),
               bitsPerSample = wBitsPerSample (Format fmt),
               formatTag = ucast (wFormatTag (Format fmt))\<rparr>
      in if formatTag h = ucast WAVE_FORMAT_EXTENSIBLE
         then h\<lparr>formatTag := Data1 (SubFormat fmt), bitsPerSample := wValidBitsPerSample fmt\<rparr>
         else h)"

text \<open>
  Line 322. The two 16-bit operands are promoted to \<^verbatim>\<open>int\<close>; the product is below
  \<open>2 ^ 31\<close>, so the conversion to \<^verbatim>\<open>UINT32\<close> keeps it.
\<close>

definition frameSize_of :: "AudioHeader \<Rightarrow> 32 word" where
  "frameSize_of h = ucast (channels h) * (ucast (bitsPerSample h) div 8)"

subsection \<open>The capture loop (lines 407-449)\<close>

text \<open>
  The state of the loop: the flag \<^verbatim>\<open>g_running\<close> and the number of reads of the flag,
  waits, \<^verbatim>\<open>GetBuffer\<close> calls and writes made so far, which select the platform's answers.
\<close>

record loop_state =
  g_running :: bool
  reads :: nat
  waits :: nat
  gets :: nat
  writes :: nat

text \<open>
  A read of \<^verbatim>\<open>g_running\<close>. \<^verbatim>\<open>CtrlHandler\<close> only ever stores \<^verbatim>\<open>FALSE\<close>, so the flag is
  \<^verbatim>\<open>TRUE\<close> at a read exactly when it was before and the handler has not run since.
\<close>

definition read_running :: "platform \<Rightarrow> loop_state \<Rightarrow> bool \<times> loop_state" where
  "read_running env s =
     (let r = (g_running s \<and> \<not> ctrl_c env (reads s))
      in (r, s\<lparr>g_running := r, reads := Suc (reads s)\<rparr>))"

definition sizeof_zeros :: "32 word" where
  "sizeof_zeros = 8192"

definition zeros :: "byte list" where
  "zeros = replicate 8192 0"

definition chunk_of :: "32 word \<Rightarrow> 32 word" where
  "chunk_of remaining = (if remaining > sizeof_zeros then sizeof_zeros else remaining)"

text \<open>Lines 429-435: the silent path. The flag is read only when \<^verbatim>\<open>remaining > 0\<close>.\<close>

function silent_loop :: "platform \<Rightarrow> 32 word \<Rightarrow> loop_state \<Rightarrow> event list \<times> loop_state" where
  "silent_loop env remaining s =
     (if remaining > 0 then
        (if fst (read_running env s) then
           (let s1 = snd (read_running env s);
                chunk = chunk_of remaining;
                w = write_ret env (writes s1) chunk;
                s2 = s1\<lparr>writes := Suc (writes s1)\<rparr>
            in if w \<le> 0 then ([CheckRunning True, Write ZerosBuf chunk w], s2\<lparr>g_running := False\<rparr>)
               else (let r = silent_loop env (remaining - chunk_of remaining) s2
                     in (CheckRunning True # Write ZerosBuf chunk w # fst r, snd r)))
         else ([CheckRunning False], snd (read_running env s)))
      else ([], s))"
  by pat_completeness auto
termination
  by (relation "measure (\<lambda>(env, remaining, s). unat remaining)")
     (auto simp: chunk_of_def sizeof_zeros_def unat_sub word_less_nat_alt word_le_nat_alt)

declare silent_loop.simps [simp del]

text \<open>Lines 424-443: what is done with a buffer of at least one frame.\<close>

definition consume_buffer :: "platform \<Rightarrow> 32 word \<Rightarrow> packet \<Rightarrow> loop_state \<Rightarrow> event list \<times> loop_state" where
  "consume_buffer env frameSize p s =
     (let byteCount = pk_frames p * frameSize
      in if pk_flags p AND AUDCLNT_BUFFERFLAGS_SILENT \<noteq> 0 then silent_loop env byteCount s
         else (let w = write_ret env (writes s) byteCount;
                   s1 = s\<lparr>writes := Suc (writes s)\<rparr>
               in ([Write (SampleBuf (pk_data p)) byteCount w],
                   if w \<le> 0 then s1\<lparr>g_running := False\<rparr> else s1)))"

text \<open>Lines 412-446: the drain of the queued packets, \<^verbatim>\<open>while (true)\<close>.\<close>

fun drain :: "nat \<Rightarrow> platform \<Rightarrow> 32 word \<Rightarrow> loop_state \<Rightarrow> (event list \<times> loop_state) option" where
  "drain 0 env frameSize s = None"
| "drain (Suc n) env frameSize s =
     (let p = GetBuffer_ret env (gets s);
          s1 = s\<lparr>gets := Suc (gets s)\<rparr>;
          e = GetBuffer (pk_hr p) (pk_frames p) (pk_flags p)
      in if pk_hr p = AUDCLNT_S_BUFFER_EMPTY \<or> FAILED (pk_hr p) then Some ([e], s1)
         else if pk_frames p = 0 then Some ([e, ReleaseBuffer (pk_frames p)], s1)
         else (let r = consume_buffer env frameSize p s1
               in case drain n env frameSize (snd r) of
                    None \<Rightarrow> None
                  | Some (evs, s3) \<Rightarrow> Some (e # fst r @ ReleaseBuffer (pk_frames p) # evs, s3)))"

text \<open>Lines 407-449: \<^verbatim>\<open>while (g_running)\<close>.\<close>

fun capture_loop :: "nat \<Rightarrow> platform \<Rightarrow> 32 word \<Rightarrow> loop_state \<Rightarrow> (event list \<times> loop_state) option" where
  "capture_loop 0 env frameSize s = None"
| "capture_loop (Suc n) env frameSize s =
     (if \<not> fst (read_running env s) then Some ([CheckRunning False], snd (read_running env s))
      else (let s1 = snd (read_running env s);
                waitResult = wait_ret env (waits s1);
                s2 = s1\<lparr>waits := Suc (waits s1)\<rparr>
            in if waitResult = WAIT_OBJECT_0 then
                 (case drain n env frameSize s2 of
                    None \<Rightarrow> None
                  | Some (evs, s3) \<Rightarrow>
                      (case capture_loop n env frameSize s3 of
                         None \<Rightarrow> None
                       | Some (evs', s4) \<Rightarrow>
                           Some (CheckRunning True # WaitForSingleObject waitResult # evs @ evs', s4)))
               else (case capture_loop n env frameSize s2 of
                       None \<Rightarrow> None
                     | Some (evs', s4) \<Rightarrow>
                         Some (CheckRunning True # WaitForSingleObject waitResult # evs', s4))))"

subsection \<open>The program (lines 208-459)\<close>

text \<open>
  \<^verbatim>\<open>wmain\<close> either leaves with an exit code before the capture loop, or reaches the loop
  with the header it wrote and the frame size. The way to the loop is cut in three at the
  comments of the source: activation (lines 208-273), the session (lines 275-373), the
  header and the start (lines 375-402). Each part takes the events made so far.
  Not embedded, as nothing is read back from them: \<^verbatim>\<open>_setmode\<close> and
  \<^verbatim>\<open>SetConsoleCtrlHandler\<close> (lines 218-221).
\<close>

datatype startup_result =
    Exit int "event list"
  | Capturing "event list" AudioHeader "32 word"

text \<open>Lines 375-402.\<close>

definition start_capture :: "platform \<Rightarrow> 32 word \<Rightarrow> AudioHeader \<Rightarrow> 32 word \<Rightarrow> event list \<Rightarrow> startup_result" where
  "start_capture env excludePid header frameSize t =
     (let w = write_ret env 0 sizeof_header;
          t1 = t @ [Write (HeaderBuf header) sizeof_header w]
      in if w \<noteq> uint sizeof_header
         then Exit 1 (t1 @ [Fprintf HeaderWriteFailed, CaptureClientRelease, AudioClientRelease,
                            CloseHandle, CoUninitialize])
         else if FAILED (Start_hr env)
         then Exit 1 (t1 @ [Start, Fprintf (StartFailed (Start_hr env)), CaptureClientRelease,
                            AudioClientRelease, CloseHandle, CoUninitialize])
         else Capturing (t1 @ [Start, Fprintf (CaptureStarted excludePid)]) header frameSize)"

text \<open>Lines 275-373.\<close>

definition open_session :: "platform \<Rightarrow> 32 word \<Rightarrow> event list \<Rightarrow> startup_result" where
  "open_session env excludePid t =
     (let hr = GetMixFormat_hr env;
          waveFormat = fst (negotiate hr (GetMixFormat_fmt env));
          usingFallback = snd (negotiate hr (GetMixFormat_fmt env));
          header = resolve waveFormat;
          frameSize = frameSize_of header;
          t1 = t @ [GetMixFormat] @ (if usingFallback then [Fprintf (MixFormatFallback hr)] else [])
                 @ [Fprintf (FormatLine header usingFallback), Initialize waveFormat]
                 @ (if \<not> usingFallback then [CoTaskMemFree] else [])
      in if FAILED (Initialize_hr env)
         then Exit 1 (t1 @ [Fprintf (InitializeFailed (Initialize_hr env)), AudioClientRelease,
                            CoUninitialize])
         else if FAILED (SetEventHandle_hr env)
         then Exit 1 (t1 @ [CreateEvent, SetEventHandle,
                            Fprintf (SetEventHandleFailed (SetEventHandle_hr env)),
                            AudioClientRelease, CloseHandle, CoUninitialize])
         else if FAILED (GetService_hr env)
         then Exit 1 (t1 @ [CreateEvent, SetEventHandle, GetService,
                            Fprintf (GetServiceFailed (GetService_hr env)),
                            AudioClientRelease, CloseHandle, CoUninitialize])
         else start_capture env excludePid header frameSize
                (t1 @ [CreateEvent, SetEventHandle, GetService]))"

text \<open>Lines 208-273. \<open>argv\<close> is the argument vector, so \<^verbatim>\<open>argc\<close> is its length.\<close>

definition startup :: "platform \<Rightarrow> string list \<Rightarrow> startup_result" where
  "startup env argv =
     (if length argv < 2 then Exit 1 [Fprintf Usage]
      else (let excludePid = excludePid_of (argv ! 1);
                t1 = [Fprintf (ExcludingPid excludePid), CoInitializeEx]
            in if FAILED (CoInitializeEx_hr env)
               then Exit 1 (t1 @ [Fprintf (CoInitializeExFailed (CoInitializeEx_hr env))])
               else if FAILED (Activate_hr env)
               then Exit 1 (t1 @ [ActivateAudioInterfaceAsync excludePid,
                                  Fprintf (ActivateFailed (Activate_hr env)),
                                  HandlerRelease, CoUninitialize])
               else (let hr = fst (Wait env);
                         audioClient = fst (snd (Wait env));
                         t2 = t1 @ [ActivateAudioInterfaceAsync excludePid] @ snd (snd (Wait env))
                                @ [HandlerRelease] @ (if asyncOp env then [AsyncOpRelease] else [])
                     in if FAILED hr \<or> \<not> audioClient
                        then Exit 1 (t2 @ [Fprintf (GetClientFailed hr), CoUninitialize])
                        else open_session env excludePid t2)))"

text \<open>
  The state in which the loop starts: \<^verbatim>\<open>g_running\<close> is initialised to \<^verbatim>\<open>TRUE\<close>, and the
  header was the first write.
\<close>

definition loop_start :: loop_state where
  "loop_start = \<lparr>g_running = True, reads = 0, waits = 0, gets = 0, writes = 1\<rparr>"

text \<open>Lines 451-459.\<close>

definition cleanup :: "event list" where
  "cleanup = [Fprintf StoppingCapture, Stop, CaptureClientRelease, AudioClientRelease,
              CloseHandle, CoUninitialize]"

text \<open>The whole program: the exit code and the events, or \<open>None\<close> when the fuel runs out.\<close>

definition wmain :: "nat \<Rightarrow> platform \<Rightarrow> string list \<Rightarrow> (int \<times> event list) option" where
  "wmain fuel env argv =
     (case startup env argv of
        Exit code t \<Rightarrow> Some (code, t)
      | Capturing t header frameSize \<Rightarrow>
          (case capture_loop fuel env frameSize loop_start of
             None \<Rightarrow> None
           | Some (evs, s) \<Rightarrow> Some (0, t @ evs @ cleanup)))"

subsection \<open>What reaches the data channel\<close>

text \<open>The first \<open>n\<close> bytes of the buffer a write reads from.\<close>

fun source_bytes :: "wsource \<Rightarrow> nat \<Rightarrow> byte list" where
  "source_bytes (HeaderBuf h) n = take n (header_bytes h)"
| "source_bytes ZerosBuf n = take n zeros"
| "source_bytes (SampleBuf d) n = take n d"

text \<open>The bytes a call transferred: as many of the requested ones as its return value says.\<close>

fun written :: "event \<Rightarrow> byte list" where
  "written (Write src n w) = (if w \<le> 0 then [] else take (nat w) (source_bytes src (unat n)))"
| "written e = []"

definition channel_bytes :: "event list \<Rightarrow> byte list" where
  "channel_bytes evs = concat (map written evs)"

subsection \<open>Reading runs\<close>

fun trace_of :: "startup_result \<Rightarrow> event list" where
  "trace_of (Exit code t) = t"
| "trace_of (Capturing t header frameSize) = t"

fun is_write :: "event \<Rightarrow> bool" where
  "is_write (Write src n w) = True"
| "is_write e = False"

fun is_header_write :: "event \<Rightarrow> bool" where
  "is_header_write (Write (HeaderBuf h) n w) = True"
| "is_header_write e = False"

text \<open>A write of the capture loop, and one of them that returned a value \<open>\<le> 0\<close>.\<close>

fun is_data_write :: "event \<Rightarrow> bool" where
  "is_data_write (Write ZerosBuf n w) = True"
| "is_data_write (Write (SampleBuf d) n w) = True"
| "is_data_write e = False"

fun is_failed_write :: "event \<Rightarrow> bool" where
  "is_failed_write (Write ZerosBuf n w) = (w \<le> 0)"
| "is_failed_write (Write (SampleBuf d) n w) = (w \<le> 0)"
| "is_failed_write e = False"

fun is_GetBuffer :: "event \<Rightarrow> bool" where
  "is_GetBuffer (GetBuffer hr n f) = True"
| "is_GetBuffer e = False"

fun is_wait :: "event \<Rightarrow> bool" where
  "is_wait (WaitForSingleObject r) = True"
| "is_wait e = False"

text \<open>The number of bytes a write of the capture loop asks for.\<close>

fun requested :: "event \<Rightarrow> nat" where
  "requested (Write ZerosBuf n w) = unat n"
| "requested (Write (SampleBuf d) n w) = unat n"
| "requested e = 0"

text \<open>The events after the first write of the capture loop that returned a value \<open>\<le> 0\<close>.\<close>

definition after_failure :: "event list \<Rightarrow> event list" where
  "after_failure evs = drop 1 (dropWhile (\<lambda>e. \<not> is_failed_write e) evs)"

text \<open>
  Buffers in a list of events: \<open>held\<close> is the frame count of the buffer acquired and not
  yet released. A \<^verbatim>\<open>GetBuffer\<close> acquires a buffer when its status is neither
  \<^verbatim>\<open>AUDCLNT_S_BUFFER_EMPTY\<close> nor a failure. The list is in order when no buffer is acquired
  while one is held, every release gives back the buffer held, and none is held at the end.
\<close>

fun buffers_released :: "32 word option \<Rightarrow> event list \<Rightarrow> bool" where
  "buffers_released held [] = (held = None)"
| "buffers_released held (GetBuffer hr n f # evs) =
     (held = None \<and>
      buffers_released (if hr = AUDCLNT_S_BUFFER_EMPTY \<or> FAILED hr then None else Some n) evs)"
| "buffers_released held (ReleaseBuffer n # evs) = (held = Some n \<and> buffers_released None evs)"
| "buffers_released held (e # evs) = buffers_released held evs"

text \<open>Calls on buffers; what the silent path may do.\<close>

fun is_buffer_event :: "event \<Rightarrow> bool" where
  "is_buffer_event (GetBuffer hr n f) = True"
| "is_buffer_event (ReleaseBuffer n) = True"
| "is_buffer_event e = False"

fun is_chunk_event :: "event \<Rightarrow> bool" where
  "is_chunk_event (CheckRunning b) = True"
| "is_chunk_event (Write ZerosBuf n w) = (0 < n \<and> n \<le> sizeof_zeros)"
| "is_chunk_event e = False"

text \<open>
  A silent buffer written whole: each chunk is preceded by a read of the flag that finds it
  set, asks for at most \<^verbatim>\<open>sizeof(zeros)\<close> bytes and transfers all of them.
\<close>

fun chunks_checked :: "event list \<Rightarrow> bool" where
  "chunks_checked [] = True"
| "chunks_checked (CheckRunning True # Write ZerosBuf n w # evs) =
     (0 < n \<and> n \<le> sizeof_zeros \<and> w = uint n \<and> chunks_checked evs)"
| "chunks_checked evs = False"

text \<open>The bytes the writes of the capture loop ask for, in all.\<close>

definition requested_total :: "event list \<Rightarrow> nat" where
  "requested_total evs = sum_list (map requested evs)"

text \<open>
  What may still happen once the flag is cleared: no wait on the capture event, no write of
  zeros, no read of the flag that finds it set.
\<close>

fun winding_down :: "event \<Rightarrow> bool" where
  "winding_down (WaitForSingleObject r) = False"
| "winding_down (Write ZerosBuf n w) = False"
| "winding_down (CheckRunning b) = (\<not> b)"
| "winding_down e = True"

text \<open>An answer of \<^verbatim>\<open>GetBuffer\<close> that ends the drain: empty, failed, or no frame.\<close>

definition packet_ends :: "packet \<Rightarrow> bool" where
  "packet_ends p = (pk_hr p = AUDCLNT_S_BUFFER_EMPTY \<or> FAILED (pk_hr p) \<or> pk_frames p = 0)"

text \<open>Call number \<open>k\<close> of \<^verbatim>\<open>GetBuffer\<close>, as a run shows it.\<close>

definition GetBuffer_event :: "platform \<Rightarrow> nat \<Rightarrow> event" where
  "GetBuffer_event env k =
     GetBuffer (pk_hr (GetBuffer_ret env k)) (pk_frames (GetBuffer_ret env k))
       (pk_flags (GetBuffer_ret env k))"

text \<open>The drain goes on: the buffer is released and \<^verbatim>\<open>GetBuffer\<close> is called again.\<close>

fun drain_goes_on :: "event list \<Rightarrow> bool" where
  "drain_goes_on (ReleaseBuffer n # GetBuffer hr f fl # evs) = True"
| "drain_goes_on evs = False"

text \<open>The writes of a list of events, in order: what each passes and how many bytes it asks for.\<close>

fun write_calls :: "event list \<Rightarrow> (wsource \<times> 32 word) list" where
  "write_calls [] = []"
| "write_calls (Write src n w # evs) = (src, n) # write_calls evs"
| "write_calls (e # evs) = write_calls evs"

text \<open>The write that passes the packet number \<open>k\<close> of the queue, when it is not silent.\<close>

definition sample_write :: "platform \<Rightarrow> 32 word \<Rightarrow> nat \<Rightarrow> wsource \<times> 32 word" where
  "sample_write env frameSize k =
     (SampleBuf (pk_data (GetBuffer_ret env k)), pk_frames (GetBuffer_ret env k) * frameSize)"

definition not_silent :: "platform \<Rightarrow> nat \<Rightarrow> bool" where
  "not_silent env k = (pk_flags (GetBuffer_ret env k) AND AUDCLNT_BUFFERFLAGS_SILENT = 0)"

text \<open>The program holds the audio client: line 273 is passed.\<close>

definition client_obtained :: "platform \<Rightarrow> string list \<Rightarrow> bool" where
  "client_obtained env argv =
     (2 \<le> length argv \<and> \<not> FAILED (CoInitializeEx_hr env) \<and> \<not> FAILED (Activate_hr env) \<and>
      \<not> FAILED (fst (Wait env)) \<and> fst (snd (Wait env)))"

text \<open>Every step before the header write went through.\<close>

definition session_opened :: "platform \<Rightarrow> string list \<Rightarrow> bool" where
  "session_opened env argv =
     (2 \<le> length argv \<and> \<not> FAILED (CoInitializeEx_hr env) \<and> \<not> FAILED (Activate_hr env) \<and>
      \<not> FAILED (fst (Wait env)) \<and> fst (snd (Wait env)) \<and> \<not> FAILED (Initialize_hr env) \<and>
      \<not> FAILED (SetEventHandle_hr env) \<and> \<not> FAILED (GetService_hr env))"

text \<open>Capture was started: the header went out whole and \<^verbatim>\<open>Start\<close> succeeded.\<close>

definition capture_started :: "platform \<Rightarrow> string list \<Rightarrow> bool" where
  "capture_started env argv =
     (session_opened env argv \<and> write_ret env 0 sizeof_header = uint sizeof_header \<and>
      \<not> FAILED (Start_hr env))"

text \<open>The format \<^verbatim>\<open>waveFormat\<close> points to after line 308.\<close>

definition resolved_format :: "platform \<Rightarrow> WAVEFORMATEXTENSIBLE" where
  "resolved_format env = fst (negotiate (GetMixFormat_hr env) (GetMixFormat_fmt env))"

text \<open>Argument strings: the first character is a digit; \<^verbatim>\<open>_wtoi\<close> finds no digit to read.\<close>

definition starts_with_digit :: "string \<Rightarrow> bool" where
  "starts_with_digit s = (case s of [] \<Rightarrow> False | c # cs \<Rightarrow> iswdigit c)"

definition no_number :: "string \<Rightarrow> bool" where
  "no_number s =
     (case dropWhile iswspace s of
        [] \<Rightarrow> True
      | c # cs \<Rightarrow> if c = CHR ''-'' \<or> c = CHR ''+'' then \<not> starts_with_digit cs
                  else \<not> iswdigit c)"

subsection \<open>Platforms for the example runs\<close>

text \<open>A mix format as the platform reports it: 48 kHz, stereo, 32-bit float, extensible.\<close>

definition mix_stereo :: WAVEFORMATEXTENSIBLE where
  "mix_stereo =
     \<lparr>Format = \<lparr>wFormatTag = 0xFFFE, nChannels = 2, nSamplesPerSec = 48000,
                nAvgBytesPerSec = 384000, nBlockAlign = 8, wBitsPerSample = 32, cbSize = 22\<rparr>,
      wValidBitsPerSample = 32, dwChannelMask = 3,
      SubFormat = \<lparr>Data1 = 3, Data2 = 0, Data3 = 0x10,
                   Data4 = [0x80, 0x00, 0x00, 0xAA, 0x00, 0x38, 0x9B, 0x71]\<rparr>\<rparr>"


text \<open>Integer samples of 24 valid bits in containers of 32 bits.\<close>

definition mix_pcm24 :: WAVEFORMATEXTENSIBLE where
  "mix_pcm24 =
     \<lparr>Format = \<lparr>wFormatTag = 0xFFFE, nChannels = 2, nSamplesPerSec = 44100,
                nAvgBytesPerSec = 352800, nBlockAlign = 8, wBitsPerSample = 32, cbSize = 22\<rparr>,
      wValidBitsPerSample = 24, dwChannelMask = 3,
      SubFormat = \<lparr>Data1 = 1, Data2 = 0, Data3 = 0x10,
                   Data4 = [0x80, 0x00, 0x00, 0xAA, 0x00, 0x38, 0x9B, 0x71]\<rparr>\<rparr>"

definition no_packet :: packet where
  "no_packet = \<lparr>pk_hr = AUDCLNT_S_BUFFER_EMPTY, pk_data = [], pk_frames = 0, pk_flags = 0\<rparr>"

text \<open>
  Every call succeeds, every write transfers all it is asked for, every wait is signalled,
  no packet is queued, and the control handler has run before the loop reads the flag.
\<close>

definition still_platform :: platform where
  "still_platform =
     \<lparr>CoInitializeEx_hr = S_OK, Activate_hr = S_OK, asyncOp = True, hrActivate = S_OK,
      pActivated = True, QI_hr = S_OK, QI_client = True, GetMixFormat_hr = S_OK,
      GetMixFormat_fmt = mix_stereo, Initialize_hr = S_OK, SetEventHandle_hr = S_OK,
      GetService_hr = S_OK, Start_hr = S_OK, write_ret = (\<lambda>k n. uint n),
      wait_ret = (\<lambda>k. WAIT_OBJECT_0), GetBuffer_ret = (\<lambda>k. no_packet), ctrl_c = (\<lambda>k. True)\<rparr>"

definition example_argv :: "string list" where
  "example_argv = [''audio-capture.exe'', ''1234'']"

text \<open>
  The consumer has gone: the header is written, every later write returns \<open>-1\<close>; two
  packets of one frame are queued, neither of them silent.
\<close>

definition broken_pipe_platform :: platform where
  "broken_pipe_platform =
     still_platform
       \<lparr>write_ret := (\<lambda>k n. if k = 0 then uint n else - 1),
        GetBuffer_ret :=
          (\<lambda>k. if k < 2
               then \<lparr>pk_hr = S_OK, pk_data = [1, 2, 3, 4, 5, 6, 7, 8], pk_frames = 1, pk_flags = 0\<rparr>
               else no_packet),
        ctrl_c := (\<lambda>k. False)\<rparr>"

text \<open>As \<open>still_platform\<close>, but the control handler never runs: the flag remains set.\<close>

definition steady_platform :: platform where
  "steady_platform = still_platform\<lparr>ctrl_c := (\<lambda>k. False)\<rparr>"

text \<open>A silent packet of 2500 frames: 20000 bytes at 8 bytes a frame, more than two chunks.\<close>

definition long_silent_packet :: packet where
  "long_silent_packet =
     \<lparr>pk_hr = S_OK, pk_data = [], pk_frames = 2500, pk_flags = AUDCLNT_BUFFERFLAGS_SILENT\<rparr>"

text \<open>A silent packet of \<open>2\<^sup>2\<^sup>9\<close> frames: at 8 bytes a frame, \<open>2\<^sup>3\<^sup>2\<close> bytes.\<close>

definition huge_silent_packet :: packet where
  "huge_silent_packet =
     \<lparr>pk_hr = S_OK, pk_data = [], pk_frames = 0x20000000, pk_flags = AUDCLNT_BUFFERFLAGS_SILENT\<rparr>"


section \<open>Properties\<close>

subsection \<open>The way to the capture loop\<close>

lemma length_header_bytes: "length (header_bytes h) = 12"
  by (simp add: header_bytes_def le16_def le32_def)

lemma startup_header:
  "Write (HeaderBuf h) n w \<in> set (trace_of (startup env argv)) \<Longrightarrow>
     h = resolve (resolved_format env) \<and> n = sizeof_header \<and> w = write_ret env 0 sizeof_header \<and>
     session_opened env argv"
  by (auto simp: startup_def open_session_def start_capture_def Let_def Wait_def
      session_opened_def resolved_format_def split: if_splits)

lemma startup_Initialize:
  "client_obtained env argv \<Longrightarrow> Initialize (resolved_format env) \<in> set (trace_of (startup env argv))"
  by (auto simp: startup_def open_session_def start_capture_def Let_def
      client_obtained_def resolved_format_def)

lemma startup_fallback_line:
  "Fprintf (MixFormatFallback hr) \<in> set (trace_of (startup env argv)) \<Longrightarrow>
     FAILED (GetMixFormat_hr env) \<and> hr = GetMixFormat_hr env"
  by (auto simp: startup_def open_session_def start_capture_def Let_def Wait_def negotiate_def
      split: if_splits)

lemma fallback_header:
  "header_bytes (resolve fallbackFmt) =
     [0x80, 0xBB, 0x00, 0x00, 0x02, 0x00, 0x20, 0x00, 0x03, 0x00, 0x00, 0x00]"
  by (simp add: fallbackFmt_def KSDATAFORMAT_SUBTYPE_IEEE_FLOAT_LOCAL_def resolve_def
      header_bytes_def le16_def le32_def Let_def drop_bit_eq_div)

subsection \<open>The format\<close>

text \<open>
  C1, as stated, fails: a run in which the mix-format query fails with \<^verbatim>\<open>E_FAIL\<close>, which is
  not \<^verbatim>\<open>E_NOTIMPL\<close>, goes on with the fallback descriptor, calls \<^verbatim>\<open>Initialize\<close> with it,
  starts the capture and leaves with code 0.
\<close>

theorem C1_counterexample:
  "FAILED E_FAIL \<and> E_FAIL \<noteq> E_NOTIMPL \<and>
   wmain 1 (still_platform\<lparr>GetMixFormat_hr := E_FAIL\<rparr>) example_argv =
     Some (0,
       [Fprintf (ExcludingPid 1234), CoInitializeEx, ActivateAudioInterfaceAsync 1234,
        Fprintf (ActivateResult 0 True), Fprintf (QIResult 0 True), HandlerRelease,
        AsyncOpRelease, GetMixFormat, Fprintf (MixFormatFallback E_FAIL),
        Fprintf (FormatLine \<lparr>sampleRate = 48000, channels = 2, bitsPerSample = 32, formatTag = 3\<rparr> True),
        Initialize fallbackFmt, CreateEvent, SetEventHandle, GetService,
        Write (HeaderBuf \<lparr>sampleRate = 48000, channels = 2, bitsPerSample = 32, formatTag = 3\<rparr>) 12 12,
        Start, Fprintf (CaptureStarted 1234), CheckRunning False, Fprintf StoppingCapture, Stop,
        CaptureClientRelease, AudioClientRelease, CloseHandle, CoUninitialize])"
  by code_simp

text \<open>
  C1, amended: in every run that obtains the audio client, a mix-format query that fails
  with any status makes the program go on with the fallback descriptor, and
  \<^verbatim>\<open>Initialize\<close> is called with it; a query that succeeds makes \<^verbatim>\<open>Initialize\<close> be called
  with the format the query gave, and the fallback line is not printed.
\<close>

theorem C1_fallback_on_any_failure:
  assumes "client_obtained env argv"
  shows "(FAILED (GetMixFormat_hr env) \<longrightarrow>
            resolved_format env = fallbackFmt \<and>
            Initialize fallbackFmt \<in> set (trace_of (startup env argv))) \<and>
         (\<not> FAILED (GetMixFormat_hr env) \<longrightarrow>
            resolved_format env = GetMixFormat_fmt env \<and>
            Initialize (GetMixFormat_fmt env) \<in> set (trace_of (startup env argv)) \<and>
            Fprintf (MixFormatFallback (GetMixFormat_hr env)) \<notin> set (trace_of (startup env argv)))"
proof -
  have init: "Initialize (resolved_format env) \<in> set (trace_of (startup env argv))"
    using assms by (rule startup_Initialize)
  have fb: "FAILED (GetMixFormat_hr env) \<Longrightarrow> resolved_format env = fallbackFmt"
    by (simp add: resolved_format_def negotiate_def)
  have mix: "\<not> FAILED (GetMixFormat_hr env) \<Longrightarrow> resolved_format env = GetMixFormat_fmt env"
    by (simp add: resolved_format_def negotiate_def)
  have line: "\<not> FAILED (GetMixFormat_hr env) \<Longrightarrow>
      Fprintf (MixFormatFallback (GetMixFormat_hr env)) \<notin> set (trace_of (startup env argv))"
    using startup_fallback_line by blast
  from init fb mix line show ?thesis by metis
qed

theorem C1_fallback_on_any_failure_witness:
  "client_obtained (still_platform\<lparr>GetMixFormat_hr := E_FAIL\<rparr>) example_argv \<and>
   FAILED (GetMixFormat_hr (still_platform\<lparr>GetMixFormat_hr := E_FAIL\<rparr>)) \<and>
   Initialize fallbackFmt \<in> set (trace_of (startup (still_platform\<lparr>GetMixFormat_hr := E_FAIL\<rparr>) example_argv)) \<and>
   client_obtained still_platform example_argv \<and>
   \<not> FAILED (GetMixFormat_hr still_platform) \<and>
   Initialize mix_stereo \<in> set (trace_of (startup still_platform example_argv))"
proof -
  have a: "client_obtained (still_platform\<lparr>GetMixFormat_hr := E_FAIL\<rparr>) example_argv"
    by code_simp
  have b: "FAILED (GetMixFormat_hr (still_platform\<lparr>GetMixFormat_hr := E_FAIL\<rparr>))"
    by code_simp
  have c: "client_obtained still_platform example_argv"
    by code_simp
  have d: "\<not> FAILED (GetMixFormat_hr still_platform)"
    by code_simp
  have e: "GetMixFormat_fmt still_platform = mix_stereo"
    by (simp add: still_platform_def)
  show ?thesis
    using a b c d e C1_fallback_on_any_failure [OF a] C1_fallback_on_any_failure [OF c]
    by simp
qed

text \<open>
  C5: whenever the query fails, the descriptor is 48000 Hz, 2 channels, 32 bits, 32 valid
  bits, extensible with the IEEE float sub-format and channel mask 3; its block alignment
  is channels times bytes per sample, 8, and its byte rate is sample rate times block
  alignment, 384000; the header made from it, and any header the run writes, is
  \<open>80 BB 00 00 02 00 20 00 03 00 00 00\<close>.
\<close>

theorem C5_fallback_descriptor:
  assumes "FAILED (GetMixFormat_hr env)"
  shows "resolved_format env = fallbackFmt \<and>
         nSamplesPerSec (Format (resolved_format env)) = 48000 \<and>
         nChannels (Format (resolved_format env)) = 2 \<and>
         wBitsPerSample (Format (resolved_format env)) = 32 \<and>
         wValidBitsPerSample (resolved_format env) = 32 \<and>
         wFormatTag (Format (resolved_format env)) = WAVE_FORMAT_EXTENSIBLE \<and>
         SubFormat (resolved_format env) = KSDATAFORMAT_SUBTYPE_IEEE_FLOAT_LOCAL \<and>
         Data1 (SubFormat (resolved_format env)) = 3 \<and>
         dwChannelMask (resolved_format env) = 3 \<and>
         unat (nBlockAlign (Format (resolved_format env))) =
           unat (nChannels (Format (resolved_format env))) *
           (unat (wBitsPerSample (Format (resolved_format env))) div 8) \<and>
         nBlockAlign (Format (resolved_format env)) = 8 \<and>
         unat (nAvgBytesPerSec (Format (resolved_format env))) =
           unat (nSamplesPerSec (Format (resolved_format env))) *
           unat (nBlockAlign (Format (resolved_format env))) \<and>
         nAvgBytesPerSec (Format (resolved_format env)) = 384000 \<and>
         header_bytes (resolve (resolved_format env)) =
           [0x80, 0xBB, 0x00, 0x00, 0x02, 0x00, 0x20, 0x00, 0x03, 0x00, 0x00, 0x00] \<and>
         (Write (HeaderBuf h) n w \<in> set (trace_of (startup env argv)) \<longrightarrow>
            header_bytes h = [0x80, 0xBB, 0x00, 0x00, 0x02, 0x00, 0x20, 0x00, 0x03, 0x00, 0x00, 0x00])"
proof -
  have fb: "resolved_format env = fallbackFmt"
    using assms by (simp add: resolved_format_def negotiate_def)
  have fields: "nSamplesPerSec (Format fallbackFmt) = 48000 \<and> nChannels (Format fallbackFmt) = 2 \<and>
      wBitsPerSample (Format fallbackFmt) = 32 \<and> wValidBitsPerSample fallbackFmt = 32 \<and>
      wFormatTag (Format fallbackFmt) = WAVE_FORMAT_EXTENSIBLE \<and>
      SubFormat fallbackFmt = KSDATAFORMAT_SUBTYPE_IEEE_FLOAT_LOCAL \<and>
      Data1 (SubFormat fallbackFmt) = 3 \<and> dwChannelMask fallbackFmt = 3 \<and>
      nBlockAlign (Format fallbackFmt) = 8 \<and> nAvgBytesPerSec (Format fallbackFmt) = 384000"
    by (simp add: fallbackFmt_def KSDATAFORMAT_SUBTYPE_IEEE_FLOAT_LOCAL_def)
  have hdr: "Write (HeaderBuf h) n w \<in> set (trace_of (startup env argv)) \<Longrightarrow>
      header_bytes h = header_bytes (resolve fallbackFmt)"
    using startup_header [of h n w env argv] fb by simp
  show ?thesis
    using fields hdr by (simp add: fb fallback_header KSDATAFORMAT_SUBTYPE_IEEE_FLOAT_LOCAL_def)
qed

theorem C5_fallback_descriptor_witness:
  "FAILED (GetMixFormat_hr (still_platform\<lparr>GetMixFormat_hr := E_NOTIMPL\<rparr>)) \<and>
   Write (HeaderBuf (resolve fallbackFmt)) 12 12
     \<in> set (trace_of (startup (still_platform\<lparr>GetMixFormat_hr := E_NOTIMPL\<rparr>) example_argv)) \<and>
   header_bytes (resolve fallbackFmt) =
     [0x80, 0xBB, 0x00, 0x00, 0x02, 0x00, 0x20, 0x00, 0x03, 0x00, 0x00, 0x00]"
proof -
  have a: "FAILED (GetMixFormat_hr (still_platform\<lparr>GetMixFormat_hr := E_NOTIMPL\<rparr>))"
    by code_simp
  have b: "Write (HeaderBuf (resolve fallbackFmt)) 12 12
     \<in> set (trace_of (startup (still_platform\<lparr>GetMixFormat_hr := E_NOTIMPL\<rparr>) example_argv))"
    by code_simp
  show ?thesis
    using a b C5_fallback_descriptor [OF a, of "resolve fallbackFmt" 12 12 example_argv]
    by simp
qed

text \<open>
  C7: when the format the program goes on with has the extensible tag, the header it writes
  carries the first field of the sub-format as format tag and the valid bits per sample as
  bits per sample, not the values of the outer structure.
\<close>

theorem C7_extensible_unwrapped:
  assumes "Write (HeaderBuf h) n w \<in> set (trace_of (startup env argv))"
    and "wFormatTag (Format (resolved_format env)) = WAVE_FORMAT_EXTENSIBLE"
  shows "formatTag h = Data1 (SubFormat (resolved_format env)) \<and>
         bitsPerSample h = wValidBitsPerSample (resolved_format env) \<and>
         header_bytes h =
           le32 (nSamplesPerSec (Format (resolved_format env))) @
           le16 (nChannels (Format (resolved_format env))) @
           le16 (wValidBitsPerSample (resolved_format env)) @
           le32 (Data1 (SubFormat (resolved_format env)))"
proof -
  have h: "h = resolve (resolved_format env)"
    using assms(1) startup_header by blast
  show ?thesis
    using assms(2) by (simp add: h resolve_def header_bytes_def Let_def)
qed

theorem C7_extensible_unwrapped_witness:
  "Write (HeaderBuf (resolve mix_pcm24)) 12 12
     \<in> set (trace_of (startup (still_platform\<lparr>GetMixFormat_fmt := mix_pcm24\<rparr>) example_argv)) \<and>
   wFormatTag (Format (resolved_format (still_platform\<lparr>GetMixFormat_fmt := mix_pcm24\<rparr>))) = WAVE_FORMAT_EXTENSIBLE \<and>
   formatTag (resolve mix_pcm24) = 1 \<and> bitsPerSample (resolve mix_pcm24) = 24 \<and>
   wBitsPerSample (Format mix_pcm24) = 32"
proof -
  have a: "Write (HeaderBuf (resolve mix_pcm24)) 12 12
     \<in> set (trace_of (startup (still_platform\<lparr>GetMixFormat_fmt := mix_pcm24\<rparr>) example_argv))"
    by code_simp
  have b: "wFormatTag (Format (resolved_format (still_platform\<lparr>GetMixFormat_fmt := mix_pcm24\<rparr>))) = WAVE_FORMAT_EXTENSIBLE"
    by code_simp
  have c: "resolved_format (still_platform\<lparr>GetMixFormat_fmt := mix_pcm24\<rparr>) = mix_pcm24"
    by code_simp
  have d: "Data1 (SubFormat mix_pcm24) = 1 \<and> wValidBitsPerSample mix_pcm24 = 24 \<and> wBitsPerSample (Format mix_pcm24) = 32"
    by (simp add: mix_pcm24_def)
  show ?thesis
    using a b d C7_extensible_unwrapped [OF a b] by (simp add: c)
qed

subsection \<open>The argument\<close>

lemma read_digits_no_digit: "\<not> starts_with_digit cs \<Longrightarrow> read_digits 0 cs = 0"
  by (cases cs) (simp_all add: starts_with_digit_def)

lemma wtoi_no_number:
  assumes "no_number s"
  shows "wtoi s = 0"
proof (cases "dropWhile iswspace s")
  case Nil
  show ?thesis unfolding wtoi_def Nil by simp
next
  case (Cons c cs)
  show ?thesis
  proof (cases "c = CHR ''-'' \<or> c = CHR ''+''")
    case True
    with assms have "\<not> starts_with_digit cs"
      unfolding no_number_def Cons by simp
    then have "read_digits 0 cs = 0"
      by (rule read_digits_no_digit)
    with True show ?thesis
      unfolding wtoi_def Cons by (auto simp add: INT_MAX_def INT_MIN_def)
  next
    case False
    with assms have "\<not> iswdigit c"
      unfolding no_number_def Cons by simp
    with False show ?thesis
      unfolding wtoi_def Cons by (simp add: INT_MAX_def)
  qed
qed

lemma startup_usage:
  "(Fprintf Usage \<in> set (trace_of (startup env argv))) = (length argv < 2)"
  by (auto simp: startup_def open_session_def start_capture_def Let_def Wait_def split: if_splits)

lemma startup_usage_exit:
  "(startup env argv = Exit 1 [Fprintf Usage]) = (length argv < 2)"
  by (auto simp: startup_def open_session_def start_capture_def Let_def split: if_splits)

lemma startup_begins:
  "2 \<le> length argv \<Longrightarrow>
     take 2 (trace_of (startup env argv)) =
       [Fprintf (ExcludingPid (excludePid_of (argv ! 1))), CoInitializeEx]"
  by (auto simp: startup_def open_session_def start_capture_def Let_def)

lemma startup_activates:
  "2 \<le> length argv \<Longrightarrow> \<not> FAILED (CoInitializeEx_hr env) \<Longrightarrow>
     ActivateAudioInterfaceAsync (excludePid_of (argv ! 1)) \<in> set (trace_of (startup env argv))"
  by (auto simp: startup_def open_session_def start_capture_def Let_def)

text \<open>
  C10, as stated, fails: \<open>''-7''\<close> and \<open>'' 42''\<close> do not start with a digit, and the
  process identifier the program excludes is \<open>4294967289\<close> for the first and \<open>42\<close> for the
  second, not 0.
\<close>

theorem C10_counterexample:
  "\<not> starts_with_digit ''-7'' \<and> excludePid_of ''-7'' = 4294967289 \<and>
   ActivateAudioInterfaceAsync 4294967289
     \<in> set (trace_of (startup still_platform [''audio-capture.exe'', ''-7''])) \<and>
   \<not> starts_with_digit '' 42'' \<and> excludePid_of '' 42'' = 42"
  by code_simp

text \<open>
  C10, amended: the usage line is printed, and the program leaves with code 1 having done
  nothing else, exactly when the argument is missing. For every argument in which no digit
  follows the leading white space and an optional sign, the excluded process identifier is
  0 and the program goes on: it prints the identifier, initialises COM and, when that
  succeeds, asks for the activation with target 0.
\<close>

theorem C10_unvalidated_argument:
  "(startup env argv = Exit 1 [Fprintf Usage]) = (length argv < 2) \<and>
   (Fprintf Usage \<in> set (trace_of (startup env argv))) = (length argv < 2) \<and>
   (2 \<le> length argv \<and> no_number (argv ! 1) \<longrightarrow>
      excludePid_of (argv ! 1) = 0 \<and>
      take 2 (trace_of (startup env argv)) = [Fprintf (ExcludingPid 0), CoInitializeEx] \<and>
      (\<not> FAILED (CoInitializeEx_hr env) \<longrightarrow>
         ActivateAudioInterfaceAsync 0 \<in> set (trace_of (startup env argv))))"
proof -
  have pid: "no_number (argv ! 1) \<Longrightarrow> excludePid_of (argv ! 1) = 0"
    by (simp add: excludePid_of_def wtoi_no_number)
  show ?thesis
    using pid startup_begins [of argv env] startup_activates [of argv env]
    by (auto simp: startup_usage startup_usage_exit)
qed

theorem C10_unvalidated_argument_witness:
  "2 \<le> length [''audio-capture.exe'', ''abc''] \<and>
   no_number ([''audio-capture.exe'', ''abc''] ! 1) \<and>
   \<not> FAILED (CoInitializeEx_hr still_platform) \<and>
   excludePid_of ''abc'' = 0 \<and>
   ActivateAudioInterfaceAsync 0
     \<in> set (trace_of (startup still_platform [''audio-capture.exe'', ''abc''])) \<and>
   Fprintf Usage \<notin> set (trace_of (startup still_platform [''audio-capture.exe'', ''abc'']))"
proof -
  have a: "2 \<le> length [''audio-capture.exe'', ''abc'']"
    by simp
  have b: "no_number ([''audio-capture.exe'', ''abc''] ! 1)"
    by code_simp
  have c: "\<not> FAILED (CoInitializeEx_hr still_platform)"
    by code_simp
  show ?thesis
    using a b c C10_unvalidated_argument [of still_platform "[''audio-capture.exe'', ''abc'']"]
    by simp
qed

subsection \<open>The loops\<close>

lemma read_running_fst: "fst (read_running env s) = (g_running s \<and> \<not> ctrl_c env (reads s))"
  by (simp add: read_running_def Let_def)

lemma read_running_snd:
  "snd (read_running env s) =
     s\<lparr>g_running := g_running s \<and> \<not> ctrl_c env (reads s), reads := Suc (reads s)\<rparr>"
  by (simp add: read_running_def Let_def)

lemma chunk_nz: "r \<noteq> 0 \<Longrightarrow> chunk_of r \<noteq> 0"
  unfolding chunk_of_def sizeof_zeros_def by simp

lemma chunk_pos:
  assumes "r \<noteq> 0"
  shows "0 < chunk_of r"
  using chunk_nz [OF assms] by (simp only: word_neq_0_conv)

lemma chunk_le: "chunk_of r \<le> sizeof_zeros"
  unfolding chunk_of_def sizeof_zeros_def by (simp add: not_less)

lemma chunk_le_r: "chunk_of r \<le> r"
  unfolding chunk_of_def sizeof_zeros_def by (simp add: less_imp_le)

lemma chunk_unat_pos:
  assumes "r \<noteq> 0"
  shows "0 < unat (chunk_of r)"
  using chunk_nz [OF assms] unat_gt_0 [of "chunk_of r"] by blast

lemma chunk_sub: "unat (r - chunk_of r) = unat r - unat (chunk_of r)"
  using chunk_le_r [of r] by (rule unat_sub)

lemma chunk_less: "r \<noteq> 0 \<Longrightarrow> unat (r - chunk_of r) < unat r"
proof -
  assume "r \<noteq> 0"
  then have "0 < unat (chunk_of r)" by (rule chunk_unat_pos)
  moreover have "unat (chunk_of r) \<le> unat r"
    using chunk_le_r [of r] by (simp only: word_le_nat_alt)
  ultimately show ?thesis
    using chunk_sub [of r] by arith
qed

lemma silent_loop_cases:
  "silent_loop env r s =
     (if r = 0 then ([], s)
      else if \<not> (g_running s \<and> \<not> ctrl_c env (reads s))
      then ([CheckRunning False], s\<lparr>g_running := False, reads := Suc (reads s)\<rparr>)
      else if write_ret env (writes s) (chunk_of r) \<le> 0
      then ([CheckRunning True, Write ZerosBuf (chunk_of r) (write_ret env (writes s) (chunk_of r))],
            s\<lparr>g_running := False, reads := Suc (reads s), writes := Suc (writes s)\<rparr>)
      else (CheckRunning True # Write ZerosBuf (chunk_of r) (write_ret env (writes s) (chunk_of r)) #
              fst (silent_loop env (r - chunk_of r)
                     (s\<lparr>g_running := True, reads := Suc (reads s), writes := Suc (writes s)\<rparr>)),
            snd (silent_loop env (r - chunk_of r)
                     (s\<lparr>g_running := True, reads := Suc (reads s), writes := Suc (writes s)\<rparr>))))"
  by (subst silent_loop.simps)
     (auto simp: read_running_fst read_running_snd Let_def word_gt_0)

lemma silent_loop_events: "list_all is_chunk_event (fst (silent_loop env r s))"
proof (induction "unat r" arbitrary: r s rule: less_induct)
  case less
  show ?case
  proof (cases "r = 0")
    case True
    then show ?thesis by (simp add: silent_loop_cases)
  next
    case False
    have IH: "list_all is_chunk_event (fst (silent_loop env (r - chunk_of r) s2))" for s2
      using less [OF chunk_less [OF False]] .
    have c: "is_chunk_event (Write ZerosBuf (chunk_of r) w)" for w
      using chunk_pos [OF False] chunk_le [of r] by simp
    show ?thesis
      unfolding silent_loop_cases [of env r s]
      by (simp add: IH c del: is_chunk_event.simps(2))
  qed
qed

lemma silent_loop_counters:
  "gets (snd (silent_loop env r s)) = gets s \<and> waits (snd (silent_loop env r s)) = waits s"
proof (induction "unat r" arbitrary: r s rule: less_induct)
  case less
  show ?case
  proof (cases "r = 0")
    case True
    then show ?thesis by (simp add: silent_loop_cases)
  next
    case False
    have IH: "gets (snd (silent_loop env (r - chunk_of r) s2)) = gets s2 \<and>
              waits (snd (silent_loop env (r - chunk_of r) s2)) = waits s2" for s2
      using less [OF chunk_less [OF False]] .
    show ?thesis
      unfolding silent_loop_cases [of env r s] by (simp add: IH)
  qed
qed

lemma silent_loop_stopped:
  "\<not> g_running s \<Longrightarrow>
     silent_loop env r s =
       (if r = 0 then ([], s)
        else ([CheckRunning False], s\<lparr>g_running := False, reads := Suc (reads s)\<rparr>))"
  unfolding silent_loop_cases [of env r s] by simp

lemma silent_loop_stays_stopped:
  "\<not> g_running s \<Longrightarrow> \<not> g_running (snd (silent_loop env r s))"
  by (simp add: silent_loop_stopped)

lemma consume_buffer_counters:
  "gets (snd (consume_buffer env fs p s)) = gets s \<and>
   waits (snd (consume_buffer env fs p s)) = waits s"
  by (simp add: consume_buffer_def Let_def silent_loop_counters)

lemma consume_buffer_stays_stopped:
  "\<not> g_running s \<Longrightarrow> \<not> g_running (snd (consume_buffer env fs p s))"
  by (simp add: consume_buffer_def Let_def silent_loop_stays_stopped)

lemma chunk_event_no_buffer: "is_chunk_event e \<Longrightarrow> \<not> is_buffer_event e \<and> \<not> is_header_write e \<and> \<not> is_wait e"
  by (cases e rule: is_chunk_event.cases) simp_all

lemma consume_buffer_events:
  "list_all (\<lambda>e. \<not> is_buffer_event e \<and> \<not> is_header_write e \<and> \<not> is_wait e) (fst (consume_buffer env fs p s))"
proof -
  have "list_all (\<lambda>e. \<not> is_buffer_event e \<and> \<not> is_header_write e \<and> \<not> is_wait e) (fst (silent_loop env r s))" for r
    using silent_loop_events [of env r s] chunk_event_no_buffer
    by (auto simp: list_all_iff)
  then show ?thesis
    by (simp add: consume_buffer_def Let_def)
qed

subsection \<open>Buffers\<close>

lemma buffers_released_skip:
  "list_all (\<lambda>e. \<not> is_buffer_event e) a \<Longrightarrow> buffers_released h (a @ b) = buffers_released h b"
proof (induction a)
  case Nil
  then show ?case by simp
next
  case (Cons e a)
  then show ?case by (cases e) simp_all
qed

lemma buffers_released_append:
  "buffers_released h a \<Longrightarrow> buffers_released None b \<Longrightarrow> buffers_released h (a @ b)"
  by (induction h a rule: buffers_released.induct) auto

lemma drain_induct [consumes 1, case_names stop zero more]:
  assumes run: "drain n env fs s = Some (evs, s')"
    and stop: "\<And>s p. p = GetBuffer_ret env (gets s) \<Longrightarrow>
                 pk_hr p = AUDCLNT_S_BUFFER_EMPTY \<or> FAILED (pk_hr p) \<Longrightarrow>
                 P s [GetBuffer (pk_hr p) (pk_frames p) (pk_flags p)] (s\<lparr>gets := Suc (gets s)\<rparr>)"
    and zero: "\<And>s p. p = GetBuffer_ret env (gets s) \<Longrightarrow>
                 \<not> (pk_hr p = AUDCLNT_S_BUFFER_EMPTY \<or> FAILED (pk_hr p)) \<Longrightarrow> pk_frames p = 0 \<Longrightarrow>
                 P s [GetBuffer (pk_hr p) (pk_frames p) (pk_flags p), ReleaseBuffer (pk_frames p)]
                   (s\<lparr>gets := Suc (gets s)\<rparr>)"
    and more: "\<And>s p m evs s'. p = GetBuffer_ret env (gets s) \<Longrightarrow>
                 \<not> (pk_hr p = AUDCLNT_S_BUFFER_EMPTY \<or> FAILED (pk_hr p)) \<Longrightarrow> pk_frames p \<noteq> 0 \<Longrightarrow>
                 drain m env fs (snd (consume_buffer env fs p (s\<lparr>gets := Suc (gets s)\<rparr>)))
                   = Some (evs, s') \<Longrightarrow>
                 P (snd (consume_buffer env fs p (s\<lparr>gets := Suc (gets s)\<rparr>))) evs s' \<Longrightarrow>
                 P s (GetBuffer (pk_hr p) (pk_frames p) (pk_flags p) #
                        fst (consume_buffer env fs p (s\<lparr>gets := Suc (gets s)\<rparr>)) @
                        ReleaseBuffer (pk_frames p) # evs) s'"
  shows "P s evs s'"
  using run
proof (induction n arbitrary: s evs s')
  case 0
  then show ?case by simp
next
  case (Suc n)
  let ?p = "GetBuffer_ret env (gets s)"
  let ?s1 = "s\<lparr>gets := Suc (gets s)\<rparr>"
  show ?case
  proof (cases "pk_hr ?p = AUDCLNT_S_BUFFER_EMPTY \<or> FAILED (pk_hr ?p)")
    case True
    with Suc.prems have "evs = [GetBuffer (pk_hr ?p) (pk_frames ?p) (pk_flags ?p)]" and "s' = ?s1"
      by (simp_all add: Let_def)
    with stop [OF refl True] show ?thesis by simp
  next
    case False
    show ?thesis
    proof (cases "pk_frames ?p = 0")
      case True
      with False Suc.prems
      have "evs = [GetBuffer (pk_hr ?p) (pk_frames ?p) (pk_flags ?p), ReleaseBuffer (pk_frames ?p)]"
        and "s' = ?s1"
        by (simp_all add: Let_def)
      with zero [OF refl False True] show ?thesis by simp
    next
      case nz: False
      from False nz Suc.prems obtain evs2
        where rest: "drain n env fs (snd (consume_buffer env fs ?p ?s1)) = Some (evs2, s')"
          and evs: "evs = GetBuffer (pk_hr ?p) (pk_frames ?p) (pk_flags ?p) #
                      fst (consume_buffer env fs ?p ?s1) @ ReleaseBuffer (pk_frames ?p) # evs2"
        by (auto simp: Let_def split: option.splits prod.splits)
      from more [OF refl False nz rest Suc.IH [OF rest]] evs show ?thesis by simp
    qed
  qed
qed

lemma capture_loop_induct [consumes 1, case_names exit drained timeout]:
  assumes run: "capture_loop n env fs s = Some (evs, s')"
    and exit: "\<And>s. \<not> (g_running s \<and> \<not> ctrl_c env (reads s)) \<Longrightarrow>
                 P s [CheckRunning False] (s\<lparr>g_running := False, reads := Suc (reads s)\<rparr>)"
    and drained: "\<And>s m evs1 s1 evs2 s2. g_running s \<Longrightarrow> \<not> ctrl_c env (reads s) \<Longrightarrow>
                 wait_ret env (waits s) = WAIT_OBJECT_0 \<Longrightarrow>
                 drain m env fs (s\<lparr>g_running := True, reads := Suc (reads s), waits := Suc (waits s)\<rparr>)
                   = Some (evs1, s1) \<Longrightarrow>
                 capture_loop m env fs s1 = Some (evs2, s2) \<Longrightarrow>
                 P s1 evs2 s2 \<Longrightarrow>
                 P s (CheckRunning True # WaitForSingleObject (wait_ret env (waits s)) # evs1 @ evs2) s2"
    and timeout: "\<And>s m evs2 s2. g_running s \<Longrightarrow> \<not> ctrl_c env (reads s) \<Longrightarrow>
                 wait_ret env (waits s) \<noteq> WAIT_OBJECT_0 \<Longrightarrow>
                 capture_loop m env fs
                     (s\<lparr>g_running := True, reads := Suc (reads s), waits := Suc (waits s)\<rparr>)
                   = Some (evs2, s2) \<Longrightarrow>
                 P (s\<lparr>g_running := True, reads := Suc (reads s), waits := Suc (waits s)\<rparr>) evs2 s2 \<Longrightarrow>
                 P s (CheckRunning True # WaitForSingleObject (wait_ret env (waits s)) # evs2) s2"
  shows "P s evs s'"
  using run
proof (induction n arbitrary: s evs s')
  case 0
  then show ?case by simp
next
  case (Suc n)
  let ?s2 = "s\<lparr>g_running := True, reads := Suc (reads s), waits := Suc (waits s)\<rparr>"
  show ?case
  proof (cases "g_running s \<and> \<not> ctrl_c env (reads s)")
    case False
    with Suc.prems have "evs = [CheckRunning False]"
      and "s' = s\<lparr>g_running := False, reads := Suc (reads s)\<rparr>"
      by (simp_all add: read_running_fst read_running_snd)
    with exit [OF False] show ?thesis by simp
  next
    case True
    show ?thesis
    proof (cases "wait_ret env (waits s) = WAIT_OBJECT_0")
      case sig: True
      from True sig Suc.prems obtain evs1 s1 evs2
        where d: "drain n env fs ?s2 = Some (evs1, s1)"
          and r: "capture_loop n env fs s1 = Some (evs2, s')"
          and evs: "evs = CheckRunning True # WaitForSingleObject (wait_ret env (waits s)) # evs1 @ evs2"
        by (auto simp: read_running_fst read_running_snd Let_def split: option.splits prod.splits)
      from drained [OF _ _ sig d r Suc.IH [OF r]] True evs show ?thesis by simp
    next
      case nosig: False
      from True nosig Suc.prems obtain evs2
        where r: "capture_loop n env fs ?s2 = Some (evs2, s')"
          and evs: "evs = CheckRunning True # WaitForSingleObject (wait_ret env (waits s)) # evs2"
        by (auto simp: read_running_fst read_running_snd Let_def split: option.splits prod.splits)
      from timeout [OF _ _ nosig r Suc.IH [OF r]] True evs show ?thesis by simp
    qed
  qed
qed

lemma drain_buffers: "drain n env fs s = Some (evs, s') \<Longrightarrow> buffers_released None evs"
proof (induction rule: drain_induct)
  case (stop s p)
  then show ?case by auto
next
  case (zero s p)
  then show ?case by simp
next
  case (more s p m evs s')
  have "list_all (\<lambda>e. \<not> is_buffer_event e) (fst (consume_buffer env fs p (s\<lparr>gets := Suc (gets s)\<rparr>)))"
    using consume_buffer_events [of env fs p "s\<lparr>gets := Suc (gets s)\<rparr>"] by (auto simp: list_all_iff)
  with more show ?case
    by (simp add: buffers_released_skip)
qed

lemma capture_loop_buffers: "capture_loop n env fs s = Some (evs, s') \<Longrightarrow> buffers_released None evs"
proof (induction rule: capture_loop_induct)
  case (exit s)
  then show ?case by simp
next
  case (drained s m evs1 s1 evs2 s2)
  then show ?case by (simp add: buffers_released_append drain_buffers)
next
  case (timeout s m evs2 s2)
  then show ?case by simp
qed

lemma capture_loop_final:
  "capture_loop n env fs s = Some (evs, s') \<Longrightarrow>
     \<not> g_running s' \<and> evs \<noteq> [] \<and> last evs = CheckRunning False"
  by (induction rule: capture_loop_induct) simp_all

subsection \<open>Runs of the program\<close>

lemma startup_no_buffer_events:
  "list_all (\<lambda>e. \<not> is_buffer_event e) (trace_of (startup env argv))"
  by (simp add: startup_def open_session_def start_capture_def Let_def Wait_def)

lemma startup_Exit: "startup env argv = Exit code t \<Longrightarrow> code = 1 \<and> \<not> capture_started env argv"
  by (auto simp: startup_def open_session_def start_capture_def Let_def
      capture_started_def session_opened_def split: if_splits)

lemma startup_Capturing:
  "startup env argv = Capturing t h fs \<Longrightarrow>
     capture_started env argv \<and> h = resolve (resolved_format env) \<and> fs = frameSize_of h \<and>
     dropWhile (\<lambda>e. \<not> is_write e) t =
       [Write (HeaderBuf h) sizeof_header (uint sizeof_header), Start,
        Fprintf (CaptureStarted (excludePid_of (argv ! 1)))]"
  by (auto simp: startup_def open_session_def start_capture_def Let_def Wait_def
      capture_started_def session_opened_def resolved_format_def split: if_splits)


lemma startup_short_header:
  "session_opened env argv \<Longrightarrow> write_ret env 0 sizeof_header \<noteq> uint sizeof_header \<Longrightarrow>
     \<exists>t. startup env argv = Exit 1 t \<and>
         dropWhile (\<lambda>e. \<not> is_write e) t =
           [Write (HeaderBuf (resolve (resolved_format env))) sizeof_header (write_ret env 0 sizeof_header),
            Fprintf HeaderWriteFailed, CaptureClientRelease, AudioClientRelease, CloseHandle,
            CoUninitialize] \<and>
         Start \<notin> set t"
  by (auto simp: startup_def open_session_def start_capture_def Let_def Wait_def
      session_opened_def resolved_format_def)

lemma startup_total:
  "(\<exists>t. startup env argv = Exit 1 t \<and> \<not> capture_started env argv) \<or>
   (\<exists>t. startup env argv =
          Capturing t (resolve (resolved_format env)) (frameSize_of (resolve (resolved_format env))) \<and>
        capture_started env argv)"
proof (cases "startup env argv")
  case (Exit code t)
  with startup_Exit [OF Exit] show ?thesis by simp
next
  case (Capturing t h fs)
  with startup_Capturing [OF Capturing] show ?thesis by simp
qed

lemma wmain_not_started:
  "\<not> capture_started env argv \<Longrightarrow> \<exists>t. wmain fuel env argv = Some (1, t) \<and> startup env argv = Exit 1 t"
  using startup_total [of env argv] by (auto simp: wmain_def)

lemma wmain_started:
  assumes "capture_started env argv"
  shows "\<exists>t. startup env argv =
               Capturing t (resolve (resolved_format env)) (frameSize_of (resolve (resolved_format env))) \<and>
             wmain fuel env argv =
               (case capture_loop fuel env (frameSize_of (resolve (resolved_format env))) loop_start of
                  None \<Rightarrow> None
                | Some (evs, s) \<Rightarrow> Some (0, t @ evs @ cleanup))"
  using startup_total [of env argv] assms by (auto simp: wmain_def)

lemma wmain_Some:
  assumes "wmain fuel env argv = Some (code, tr)"
  shows "(code = 1 \<and> \<not> capture_started env argv \<and> startup env argv = Exit 1 tr) \<or>
         (code = 0 \<and> capture_started env argv \<and>
          (\<exists>t evs s. startup env argv =
                 Capturing t (resolve (resolved_format env)) (frameSize_of (resolve (resolved_format env))) \<and>
               capture_loop fuel env (frameSize_of (resolve (resolved_format env))) loop_start = Some (evs, s) \<and>
               tr = t @ evs @ cleanup))"
proof (cases "capture_started env argv")
  case True
  from wmain_started [OF True, of fuel] assms True show ?thesis
    by (auto split: option.splits)
next
  case False
  from wmain_not_started [OF False, of fuel] assms False show ?thesis
    by auto
qed

text \<open>
  C9: in every drain of the queue, and so in every run that returns, a buffer is released
  exactly when one is held, with the frame count it was acquired with, no buffer is acquired
  while one is held, and none is held at the end: each acquisition is followed by exactly one
  release, on the zero-frame path and after a failed write as well.
\<close>

theorem C9_buffers_released:
  "(drain n env fs s = Some (evs, s') \<longrightarrow> buffers_released None evs) \<and>
   (wmain fuel env argv = Some (code, tr) \<longrightarrow> buffers_released None tr)"
proof -
  have "buffers_released None tr" if run: "wmain fuel env argv = Some (code, tr)"
  proof -
    from wmain_Some [OF run] consider
      (exit) "startup env argv = Exit 1 tr"
      | (loop) t evs st h frameSize where "startup env argv = Capturing t h frameSize"
          "capture_loop fuel env frameSize loop_start = Some (evs, st)" "tr = t @ evs @ cleanup"
      by blast
    then show ?thesis
    proof cases
      case exit
      with startup_no_buffer_events [of env argv] buffers_released_skip [of tr None "[]"]
      show ?thesis by simp
    next
      case loop
      have "list_all (\<lambda>e. \<not> is_buffer_event e) t"
        using startup_no_buffer_events [of env argv] loop(1) by simp
      moreover have "buffers_released None (evs @ cleanup)"
        using capture_loop_buffers [OF loop(2)]
        by (rule buffers_released_append) (simp add: cleanup_def)
      ultimately show ?thesis
        by (simp add: loop(3) buffers_released_skip)
    qed
  qed
  then show ?thesis
    using drain_buffers by blast
qed

theorem C9_buffers_released_witness:
  "drain 3 broken_pipe_platform 8 (loop_start\<lparr>reads := 1, waits := 1\<rparr>) =
     Some ([GetBuffer 0 1 0, Write (SampleBuf [1, 2, 3, 4, 5, 6, 7, 8]) 8 (- 1), ReleaseBuffer 1,
            GetBuffer 0 1 0, Write (SampleBuf [1, 2, 3, 4, 5, 6, 7, 8]) 8 (- 1), ReleaseBuffer 1,
            GetBuffer AUDCLNT_S_BUFFER_EMPTY 0 0],
           \<lparr>g_running = False, reads = 1, waits = 1, gets = 3, writes = 3\<rparr>) \<and>
   buffers_released None
     [GetBuffer 0 1 0, Write (SampleBuf [1, 2, 3, 4, 5, 6, 7, 8]) 8 (- 1), ReleaseBuffer 1,
      GetBuffer 0 1 0, Write (SampleBuf [1, 2, 3, 4, 5, 6, 7, 8]) 8 (- 1), ReleaseBuffer 1,
      GetBuffer AUDCLNT_S_BUFFER_EMPTY 0 0] \<and>
   wmain 4 broken_pipe_platform example_argv \<noteq> None \<and>
   buffers_released None (snd (the (wmain 4 broken_pipe_platform example_argv)))"
proof -
  have d: "drain 3 broken_pipe_platform 8 (loop_start\<lparr>reads := 1, waits := 1\<rparr>) =
     Some ([GetBuffer 0 1 0, Write (SampleBuf [1, 2, 3, 4, 5, 6, 7, 8]) 8 (- 1), ReleaseBuffer 1,
            GetBuffer 0 1 0, Write (SampleBuf [1, 2, 3, 4, 5, 6, 7, 8]) 8 (- 1), ReleaseBuffer 1,
            GetBuffer AUDCLNT_S_BUFFER_EMPTY 0 0],
           \<lparr>g_running = False, reads = 1, waits = 1, gets = 3, writes = 3\<rparr>)"
    by code_simp
  have w: "wmain 4 broken_pipe_platform example_argv \<noteq> None"
    by code_simp
  then obtain code tr where r: "wmain 4 broken_pipe_platform example_argv = Some (code, tr)"
    by auto
  note released = C9_buffers_released [where n = 3 and env = broken_pipe_platform and fs = 8
      and s = "loop_start\<lparr>reads := 1, waits := 1\<rparr>" and fuel = 4 and argv = example_argv
      and code = code and tr = tr]
  from released d have 1: "buffers_released None
     [GetBuffer 0 1 0, Write (SampleBuf [1, 2, 3, 4, 5, 6, 7, 8]) 8 (- 1), ReleaseBuffer 1,
      GetBuffer 0 1 0, Write (SampleBuf [1, 2, 3, 4, 5, 6, 7, 8]) 8 (- 1), ReleaseBuffer 1,
      GetBuffer AUDCLNT_S_BUFFER_EMPTY 0 0]"
    by blast
  from released r have "buffers_released None tr"
    by blast
  with r have 2: "buffers_released None (snd (the (wmain 4 broken_pipe_platform example_argv)))"
    by simp
  from d 1 w 2 show ?thesis
    by blast
qed

lemma capture_loop_no_header:
  "capture_loop n env fs s = Some (evs, s') \<Longrightarrow> list_all (\<lambda>e. \<not> is_header_write e) evs"
proof (induction rule: capture_loop_induct)
  case (exit s)
  then show ?case by simp
next
  case (drained s m evs1 s1 evs2 s2)
  have "list_all (\<lambda>e. \<not> is_header_write e) evs1"
    using drained(4)
  proof (induction rule: drain_induct)
    case (more s p m evs s')
    then show ?case
      using consume_buffer_events [of env fs p "s\<lparr>gets := Suc (gets s)\<rparr>"]
      by (auto simp: list_all_iff)
  qed simp_all
  with drained show ?case by simp
next
  case (timeout s m evs2 s2)
  then show ?case by simp
qed

lemma channel_bytes_dropWhile:
  "channel_bytes (dropWhile (\<lambda>e. \<not> is_write e) evs) = channel_bytes evs"
proof (induction evs)
  case Nil
  then show ?case by simp
next
  case (Cons e evs)
  then show ?case by (cases e) (simp_all add: channel_bytes_def)
qed


lemma dropWhile_append_found:
  "dropWhile P xs \<noteq> [] \<Longrightarrow> dropWhile P (xs @ ys) = dropWhile P xs @ ys"
  by (induction xs) auto




lemma unat_low_byte: "unat (ucast (x :: 'a::len word) :: byte) = unat x mod 256"
  by (simp add: unsigned_ucast_eq take_bit_eq_mod)

lemma unat_drop: "unat (drop_bit n (x :: 'a::len word)) = unat x div 2 ^ n"
proof -
  have "unat (drop_bit n x) = drop_bit n (unat x)"
    by (rule unat_drop_bit_eq)
  also have "\<dots> = unat x div 2 ^ n"
    by (rule drop_bit_eq_div)
  finally show ?thesis .
qed

lemma le32_value:
  "unat (le32 x ! 0) + 256 * unat (le32 x ! 1) + 65536 * unat (le32 x ! 2) +
   16777216 * unat (le32 x ! 3) = unat x"
proof -
  define n where "n = unat x"
  define a where "a = n div 256"
  define b where "b = a div 256"
  define c where "c = b div 256"
  have "n < 2 ^ 32"
    using unsigned_less [of x, where 'a = nat] by (simp add: n_def)
  then have "n div 16777216 < 256"
    by simp
  have b': "n div 65536 = b"
    by (simp add: a_def b_def div_mult2_eq)
  have c': "n div 16777216 = c"
    by (simp add: a_def b_def c_def div_mult2_eq)
  from \<open>n div 16777216 < 256\<close> c' have top: "c mod 256 = c"
    by simp
  have 0: "n = 256 * a + n mod 256"
    by (simp add: a_def)
  have 1: "a = 256 * b + a mod 256"
    by (simp add: b_def)
  have 2: "b = 256 * c + b mod 256"
    by (simp add: c_def)
  have bytes: "unat (le32 x ! 0) = n mod 256" "unat (le32 x ! 1) = a mod 256"
    "unat (le32 x ! 2) = b mod 256" "unat (le32 x ! 3) = c"
    using b' c' top by (simp_all add: le32_def unat_low_byte unat_drop n_def [symmetric] a_def [symmetric])
  from 0 1 2 show ?thesis
    unfolding bytes n_def [symmetric] by arith
qed

lemma le16_value: "unat (le16 x ! 0) + 256 * unat (le16 x ! 1) = unat x"
proof -
  have "unat x < 2 ^ 16"
    using unsigned_less [of x, where 'a = nat] by simp
  then have "unat x div 256 < 256"
    by simp
  then have top: "unat x div 256 mod 256 = unat x div 256"
    by simp
  show ?thesis
    unfolding le16_def
    by (simp add: unat_low_byte unat_drop top)
qed

lemma header_layout:
  "unat (header_bytes h ! 0) + 256 * unat (header_bytes h ! 1) + 65536 * unat (header_bytes h ! 2) +
     16777216 * unat (header_bytes h ! 3) = unat (sampleRate h) \<and>
   unat (header_bytes h ! 4) + 256 * unat (header_bytes h ! 5) = unat (channels h) \<and>
   unat (header_bytes h ! 6) + 256 * unat (header_bytes h ! 7) = unat (bitsPerSample h) \<and>
   unat (header_bytes h ! 8) + 256 * unat (header_bytes h ! 9) + 65536 * unat (header_bytes h ! 10) +
     16777216 * unat (header_bytes h ! 11) = unat (formatTag h)"
proof -
  have at: "header_bytes h ! 0 = le32 (sampleRate h) ! 0" "header_bytes h ! 1 = le32 (sampleRate h) ! 1"
    "header_bytes h ! 2 = le32 (sampleRate h) ! 2" "header_bytes h ! 3 = le32 (sampleRate h) ! 3"
    "header_bytes h ! 4 = le16 (channels h) ! 0" "header_bytes h ! 5 = le16 (channels h) ! 1"
    "header_bytes h ! 6 = le16 (bitsPerSample h) ! 0" "header_bytes h ! 7 = le16 (bitsPerSample h) ! 1"
    "header_bytes h ! 8 = le32 (formatTag h) ! 0" "header_bytes h ! 9 = le32 (formatTag h) ! 1"
    "header_bytes h ! 10 = le32 (formatTag h) ! 2" "header_bytes h ! 11 = le32 (formatTag h) ! 3"
    by (simp_all add: header_bytes_def le32_def le16_def)
  show ?thesis
    unfolding at by (simp only: le32_value le16_value simp_thms)
qed

lemma header_write_bytes:
  "channel_bytes (Write (HeaderBuf h) sizeof_header 12 # evs) = header_bytes h @ channel_bytes evs"
  by (simp add: channel_bytes_def sizeof_header_def length_header_bytes)

text \<open>
  C4: the header is 12 bytes: the sample rate in bytes 0 to 3, the channels in bytes 4 and 5,
  the bits per sample in bytes 6 and 7, the format tag in bytes 8 to 11, each least
  significant byte first. In every run that starts the capture, and so in every run that
  leaves with code 0, the first write is the write of the header, it transfers all 12 bytes,
  \<^verbatim>\<open>Start\<close> is the next call, and no later write reads from the header: the data channel
  begins with the header, and sample data follows it. When the session is open and the write
  of the header transfers fewer than 12 bytes, the program prints the failure, releases the
  capture client and the audio client, closes the event, leaves COM and exits with code 1
  without calling \<^verbatim>\<open>Start\<close>.
\<close>

theorem C4_header_first:
  "length (header_bytes h) = 12 \<and>
   unat (header_bytes h ! 0) + 256 * unat (header_bytes h ! 1) + 65536 * unat (header_bytes h ! 2) +
     16777216 * unat (header_bytes h ! 3) = unat (sampleRate h) \<and>
   unat (header_bytes h ! 4) + 256 * unat (header_bytes h ! 5) = unat (channels h) \<and>
   unat (header_bytes h ! 6) + 256 * unat (header_bytes h ! 7) = unat (bitsPerSample h) \<and>
   unat (header_bytes h ! 8) + 256 * unat (header_bytes h ! 9) + 65536 * unat (header_bytes h ! 10) +
     16777216 * unat (header_bytes h ! 11) = unat (formatTag h) \<and>
   (startup env argv = Capturing t h' fs \<longrightarrow>
      dropWhile (\<lambda>e. \<not> is_write e) t =
        [Write (HeaderBuf h') sizeof_header 12, Start,
         Fprintf (CaptureStarted (excludePid_of (argv ! 1)))]) \<and>
   (wmain fuel env argv = Some (0, tr) \<longrightarrow>
      (\<exists>rest. dropWhile (\<lambda>e. \<not> is_write e) tr =
                Write (HeaderBuf (resolve (resolved_format env))) sizeof_header 12 # Start # rest \<and>
              list_all (\<lambda>e. \<not> is_header_write e) rest) \<and>
      take 12 (channel_bytes tr) = header_bytes (resolve (resolved_format env))) \<and>
   (session_opened env argv \<and> write_ret env 0 sizeof_header < 12 \<longrightarrow>
      (\<exists>t. wmain fuel env argv = Some (1, t) \<and>
           dropWhile (\<lambda>e. \<not> is_write e) t =
             [Write (HeaderBuf (resolve (resolved_format env))) sizeof_header
                (write_ret env 0 sizeof_header),
              Fprintf HeaderWriteFailed, CaptureClientRelease, AudioClientRelease, CloseHandle,
              CoUninitialize] \<and>
           Start \<notin> set t))"
proof -
  let ?h = "resolve (resolved_format env)"
  have size: "uint sizeof_header = 12"
    by (simp add: sizeof_header_def)
  have a: "dropWhile (\<lambda>e. \<not> is_write e) t =
        [Write (HeaderBuf h') sizeof_header 12, Start,
         Fprintf (CaptureStarted (excludePid_of (argv ! 1)))]"
    if "startup env argv = Capturing t h' fs"
    using startup_Capturing [OF that] by (simp add: size)
  have b: "(\<exists>rest. dropWhile (\<lambda>e. \<not> is_write e) tr =
                Write (HeaderBuf ?h) sizeof_header 12 # Start # rest \<and>
              list_all (\<lambda>e. \<not> is_header_write e) rest) \<and>
      take 12 (channel_bytes tr) = header_bytes ?h"
    if run: "wmain fuel env argv = Some (0, tr)"
  proof -
    from wmain_Some [OF run] obtain t0 evs s
      where st: "startup env argv = Capturing t0 ?h (frameSize_of ?h)"
        and loop: "capture_loop fuel env (frameSize_of ?h) loop_start = Some (evs, s)"
        and tr: "tr = t0 @ evs @ cleanup"
      by auto
    let ?rest = "Fprintf (CaptureStarted (excludePid_of (argv ! 1))) # evs @ cleanup"
    from startup_Capturing [OF st]
    have d0: "dropWhile (\<lambda>e. \<not> is_write e) t0 =
        [Write (HeaderBuf ?h) sizeof_header 12, Start,
         Fprintf (CaptureStarted (excludePid_of (argv ! 1)))]"
      by (simp add: size)
    then have d: "dropWhile (\<lambda>e. \<not> is_write e) tr =
        Write (HeaderBuf ?h) sizeof_header 12 # Start # ?rest"
      by (simp add: tr dropWhile_append_found)
    have nh: "list_all (\<lambda>e. \<not> is_header_write e) ?rest"
      using capture_loop_no_header [OF loop] by (simp add: cleanup_def)
    have "channel_bytes tr = header_bytes ?h @ channel_bytes (Start # ?rest)"
      using channel_bytes_dropWhile [of tr] by (simp only: d header_write_bytes)
    then have "take 12 (channel_bytes tr) = header_bytes ?h"
      by (simp add: length_header_bytes)
    with d nh show ?thesis by blast
  qed
  have c: "\<exists>t. wmain fuel env argv = Some (1, t) \<and>
           dropWhile (\<lambda>e. \<not> is_write e) t =
             [Write (HeaderBuf ?h) sizeof_header (write_ret env 0 sizeof_header),
              Fprintf HeaderWriteFailed, CaptureClientRelease, AudioClientRelease, CloseHandle,
              CoUninitialize] \<and>
           Start \<notin> set t"
    if "session_opened env argv" and "write_ret env 0 sizeof_header < 12"
  proof -
    from that(2) have "write_ret env 0 sizeof_header \<noteq> uint sizeof_header"
      by (simp add: size)
    from startup_short_header [OF that(1) this] show ?thesis
      by (auto simp: wmain_def)
  qed
  from a b c length_header_bytes [of h] header_layout [of h] show ?thesis by blast
qed

theorem C4_header_first_witness:
  "wmain 4 broken_pipe_platform example_argv \<noteq> None \<and>
   fst (the (wmain 4 broken_pipe_platform example_argv)) = 0 \<and>
   take 12 (channel_bytes (snd (the (wmain 4 broken_pipe_platform example_argv)))) =
     [0x80, 0xBB, 0x00, 0x00, 0x02, 0x00, 0x20, 0x00, 0x03, 0x00, 0x00, 0x00] \<and>
   session_opened (still_platform\<lparr>write_ret := (\<lambda>k n. 5)\<rparr>) example_argv \<and>
   write_ret (still_platform\<lparr>write_ret := (\<lambda>k n. 5)\<rparr>) 0 sizeof_header < 12 \<and>
   fst (the (wmain 0 (still_platform\<lparr>write_ret := (\<lambda>k n. 5)\<rparr>) example_argv)) = 1 \<and>
   Start \<notin> set (snd (the (wmain 0 (still_platform\<lparr>write_ret := (\<lambda>k n. 5)\<rparr>) example_argv)))"
proof -
  let ?short = "still_platform\<lparr>write_ret := (\<lambda>k n. 5)\<rparr>"
  have e: "wmain 4 broken_pipe_platform example_argv \<noteq> None"
    by code_simp
  have z: "fst (the (wmain 4 broken_pipe_platform example_argv)) = 0"
    by code_simp
  from e z obtain tr where r: "wmain 4 broken_pipe_platform example_argv = Some (0, tr)"
    by auto
  have hb: "header_bytes (resolve (resolved_format broken_pipe_platform)) =
     [0x80, 0xBB, 0x00, 0x00, 0x02, 0x00, 0x20, 0x00, 0x03, 0x00, 0x00, 0x00]"
    by code_simp
  from C4_header_first [where env = broken_pipe_platform and argv = example_argv and fuel = 4
      and tr = tr] r
  have "take 12 (channel_bytes tr) = header_bytes (resolve (resolved_format broken_pipe_platform))"
    by blast
  with r hb have 1: "take 12 (channel_bytes (snd (the (wmain 4 broken_pipe_platform example_argv)))) =
     [0x80, 0xBB, 0x00, 0x00, 0x02, 0x00, 0x20, 0x00, 0x03, 0x00, 0x00, 0x00]"
    by simp
  have so: "session_opened ?short example_argv"
    by code_simp
  have lt: "write_ret ?short 0 sizeof_header < 12"
    by code_simp
  from C4_header_first [where env = ?short and argv = example_argv and fuel = 0] so lt
  obtain t where t: "wmain 0 ?short example_argv = Some (1, t)" "Start \<notin> set t"
    by blast
  then have 2: "fst (the (wmain 0 ?short example_argv)) = 1"
    and 3: "Start \<notin> set (snd (the (wmain 0 ?short example_argv)))"
    by simp_all
  from e z 1 so lt 2 3 show ?thesis
    by blast
qed

subsection \<open>Silent buffers\<close>

lemma channel_bytes_Cons: "channel_bytes (e # evs) = written e @ channel_bytes evs"
  by (simp add: channel_bytes_def)

lemma channel_bytes_Nil: "channel_bytes [] = []"
  by (simp add: channel_bytes_def)

lemma uint_pos: "c \<noteq> 0 \<Longrightarrow> \<not> uint c \<le> 0"
  by (simp add: uint_0_iff order_le_less)

lemma written_zeros:
  assumes "c \<le> sizeof_zeros"
  shows "written (Write ZerosBuf c (uint c)) = replicate (unat c) 0"
proof (cases "c = 0")
  case True
  then show ?thesis by simp
next
  case False
  from assms have "unat c \<le> 8192"
    by (simp add: word_le_nat_alt sizeof_zeros_def)
  with uint_pos [OF False] show ?thesis
    by (simp add: zeros_def min_absorb1)
qed

lemma silent_loop_full:
  assumes "g_running s" and "\<forall>k\<ge>reads s. \<not> ctrl_c env k"
    and "\<forall>k n. writes s \<le> k \<longrightarrow> write_ret env k n = uint n"
  shows "channel_bytes (fst (silent_loop env r s)) = replicate (unat r) 0 \<and>
         chunks_checked (fst (silent_loop env r s)) \<and>
         requested_total (fst (silent_loop env r s)) = unat r \<and>
         g_running (snd (silent_loop env r s))"
  using assms
proof (induction "unat r" arbitrary: r s rule: less_induct)
  case less
  show ?case
  proof (cases "r = 0")
    case True
    then show ?thesis
      using less.prems(1) by (simp add: silent_loop_cases channel_bytes_Nil requested_total_def)
  next
    case False
    let ?c = "chunk_of r"
    let ?s2 = "s\<lparr>g_running := True, reads := Suc (reads s), writes := Suc (writes s)\<rparr>"
    have go: "g_running s \<and> \<not> ctrl_c env (reads s)"
      using less.prems(1,2) by simp
    have w: "write_ret env (writes s) ?c = uint ?c"
      using less.prems(3) by simp
    have pos: "\<not> uint ?c \<le> 0"
      using chunk_nz [OF False] by (rule uint_pos)
    have step: "silent_loop env r s =
        (CheckRunning True # Write ZerosBuf ?c (uint ?c) # fst (silent_loop env (r - ?c) ?s2),
         snd (silent_loop env (r - ?c) ?s2))"
      unfolding silent_loop_cases [of env r s] using False go w pos by simp
    have IH: "channel_bytes (fst (silent_loop env (r - ?c) ?s2)) = replicate (unat (r - ?c)) 0 \<and>
         chunks_checked (fst (silent_loop env (r - ?c) ?s2)) \<and>
         requested_total (fst (silent_loop env (r - ?c) ?s2)) = unat (r - ?c) \<and>
         g_running (snd (silent_loop env (r - ?c) ?s2))"
      using less.prems(2,3) by (intro less.hyps [OF chunk_less [OF False]]) simp_all
    have le: "unat ?c \<le> unat r"
      using chunk_le_r [of r] by (simp only: word_le_nat_alt)
    have bytes: "replicate (unat ?c) (0::byte) @ replicate (unat r - unat ?c) 0 = replicate (unat r) 0"
      using le by (simp add: replicate_add [symmetric])
    have wz: "written (Write ZerosBuf ?c (uint ?c)) = replicate (unat ?c) 0"
      using chunk_le [of r] by (rule written_zeros)
    have cb: "channel_bytes (CheckRunning True # Write ZerosBuf ?c (uint ?c) # rest) =
        replicate (unat ?c) 0 @ channel_bytes rest" for rest
      by (simp add: channel_bytes_def wz del: written.simps(1))
    have rq: "requested_total (CheckRunning True # Write ZerosBuf ?c (uint ?c) # rest) =
        unat ?c + requested_total rest" for rest
      by (simp add: requested_total_def)
    show ?thesis
      unfolding step
      using IH chunk_pos [OF False] chunk_le [of r] le bytes
      by (simp add: cb rq chunk_sub)
  qed
qed

text \<open>
  C3, as stated, fails: the byte count of line 424 is a product of two \<^verbatim>\<open>UINT32\<close>. For a
  buffer flagged silent of 536870912 frames of 8 bytes, with the flag set and every write
  transferring all it is asked for, frame count times frame size is 4294967296, the byte
  count is 0, and the loop of lines 429-435 writes nothing.
\<close>

theorem C3_counterexample:
  "pk_flags huge_silent_packet AND AUDCLNT_BUFFERFLAGS_SILENT \<noteq> 0 \<and>
   g_running loop_start \<and>
   unat (pk_frames huge_silent_packet) * unat (8 :: 32 word) = 4294967296 \<and>
   pk_frames huge_silent_packet * 8 = 0 \<and>
   fst (consume_buffer steady_platform 8 huge_silent_packet loop_start) = [] \<and>
   channel_bytes (fst (consume_buffer steady_platform 8 huge_silent_packet loop_start)) = [] \<and>
   g_running (snd (consume_buffer steady_platform 8 huge_silent_packet loop_start))"
proof -
  have a: "pk_flags huge_silent_packet AND AUDCLNT_BUFFERFLAGS_SILENT \<noteq> 0"
    by code_simp
  have b: "g_running loop_start"
    by (simp add: loop_start_def)
  have c: "unat (pk_frames huge_silent_packet) * unat (8 :: 32 word) = 4294967296"
    by (simp add: huge_silent_packet_def)
  have d: "pk_frames huge_silent_packet * 8 = 0"
    by (simp add: huge_silent_packet_def)
  have e: "fst (consume_buffer steady_platform 8 huge_silent_packet loop_start) = []"
    by code_simp
  have f: "channel_bytes (fst (consume_buffer steady_platform 8 huge_silent_packet loop_start)) = []"
    by code_simp
  have g: "g_running (snd (consume_buffer steady_platform 8 huge_silent_packet loop_start))"
    by code_simp
  from a b c d e f g show ?thesis
    by blast
qed

text \<open>
  C3, amended: for a buffer flagged silent, when the flag stays set and every write transfers
  all it is asked for, the bytes that reach the data channel for the buffer are zero bytes,
  as many as the byte count \<^verbatim>\<open>numFrames * frameSize\<close> of line 424: the product of frame
  count and frame size modulo \<open>2\<^sup>3\<^sup>2\<close>, which is the product itself whenever that fits in
  32 bits. They are asked for in chunks of at most \<^verbatim>\<open>sizeof(zeros)\<close> = 8192 bytes, each
  after a read of the flag that finds it set, and the chunks add up to the byte count,
  whatever their size.
\<close>

theorem C3_silent_buffer:
  assumes "pk_flags p AND AUDCLNT_BUFFERFLAGS_SILENT \<noteq> 0"
    and "g_running s" and "\<forall>k\<ge>reads s. \<not> ctrl_c env k"
    and "\<forall>k n. writes s \<le> k \<longrightarrow> write_ret env k n = uint n"
  shows "channel_bytes (fst (consume_buffer env fs p s)) = replicate (unat (pk_frames p * fs)) 0 \<and>
         unat (pk_frames p * fs) = (unat (pk_frames p) * unat fs) mod 2 ^ 32 \<and>
         chunks_checked (fst (consume_buffer env fs p s)) \<and>
         sizeof_zeros = 8192 \<and>
         requested_total (fst (consume_buffer env fs p s)) = unat (pk_frames p * fs) \<and>
         g_running (snd (consume_buffer env fs p s)) \<and>
         (unat (pk_frames p) * unat fs < 2 ^ 32 \<longrightarrow>
            length (channel_bytes (fst (consume_buffer env fs p s))) = unat (pk_frames p) * unat fs)"
proof -
  have eq: "consume_buffer env fs p s = silent_loop env (pk_frames p * fs) s"
    using assms(1) by (simp add: consume_buffer_def Let_def)
  have wrap: "unat (pk_frames p * fs) = (unat (pk_frames p) * unat fs) mod 2 ^ 32"
    by (simp add: unat_word_ariths(2))
  have prod: "unat (pk_frames p * fs) = unat (pk_frames p) * unat fs"
    if "unat (pk_frames p) * unat fs < 2 ^ 32"
    using that unat_mult_lem [of "pk_frames p" fs] by simp
  from silent_loop_full [OF assms(2,3,4), of "pk_frames p * fs"] prod wrap show ?thesis
    by (simp add: eq sizeof_zeros_def)
qed

theorem C3_silent_buffer_witness:
  "pk_flags long_silent_packet AND AUDCLNT_BUFFERFLAGS_SILENT \<noteq> 0 \<and>
   g_running loop_start \<and>
   unat (pk_frames long_silent_packet) * unat (8 :: 32 word) < 2 ^ 32 \<and>
   channel_bytes (fst (consume_buffer steady_platform 8 long_silent_packet loop_start))
     = replicate 20000 0 \<and>
   length (channel_bytes (fst (consume_buffer steady_platform 8 long_silent_packet loop_start)))
     = 2500 * 8 \<and>
   chunks_checked (fst (consume_buffer steady_platform 8 long_silent_packet loop_start)) \<and>
   fst (consume_buffer steady_platform 8 long_silent_packet loop_start)
     = [CheckRunning True, Write ZerosBuf 8192 8192, CheckRunning True, Write ZerosBuf 8192 8192,
        CheckRunning True, Write ZerosBuf 3616 3616]"
proof -
  let ?run = "consume_buffer steady_platform 8 long_silent_packet loop_start"
  have a: "pk_flags long_silent_packet AND AUDCLNT_BUFFERFLAGS_SILENT \<noteq> 0"
    by code_simp
  have b: "g_running loop_start"
    by (simp add: loop_start_def)
  have c: "\<forall>k\<ge>reads loop_start. \<not> ctrl_c steady_platform k"
    by (simp add: steady_platform_def)
  have d: "\<forall>k n. writes loop_start \<le> k \<longrightarrow> write_ret steady_platform k n = uint n"
    by (simp add: steady_platform_def still_platform_def)
  have e: "unat (pk_frames long_silent_packet) * unat (8 :: 32 word) < 2 ^ 32"
    by (simp add: long_silent_packet_def)
  have f: "unat (pk_frames long_silent_packet * 8) = 20000"
    by (simp add: long_silent_packet_def)
  have f': "unat (pk_frames long_silent_packet) * unat (8 :: 32 word) = 2500 * 8"
    by (simp add: long_silent_packet_def)
  have g: "fst ?run
     = [CheckRunning True, Write ZerosBuf 8192 8192, CheckRunning True, Write ZerosBuf 8192 8192,
        CheckRunning True, Write ZerosBuf 3616 3616]"
    by code_simp
  note inst = C3_silent_buffer [OF a b c d, of 8]
  from inst have "channel_bytes (fst ?run) = replicate (unat (pk_frames long_silent_packet * 8)) 0"
    by blast
  then have 1: "channel_bytes (fst ?run) = replicate 20000 0"
    by (simp only: f)
  from inst e have "length (channel_bytes (fst ?run)) = unat (pk_frames long_silent_packet) * unat (8 :: 32 word)"
    by blast
  then have 2: "length (channel_bytes (fst ?run)) = 2500 * 8"
    by (simp only: f')
  from inst have 3: "chunks_checked (fst ?run)"
    by blast
  from a b e 1 2 3 g show ?thesis
    by blast
qed

subsection \<open>What the loop asks the data channel for\<close>








subsection \<open>After a failed write\<close>

lemma after_failure_Cons:
  "after_failure (e # evs) = (if is_failed_write e then evs else after_failure evs)"
  by (simp add: after_failure_def)

lemma after_failure_Nil: "after_failure [] = []"
  by (simp add: after_failure_def)

lemma after_failure_none: "\<not> list_ex is_failed_write evs \<Longrightarrow> after_failure evs = []"
  by (induction evs) (simp_all add: after_failure_Nil after_failure_Cons)

lemma after_failure_append:
  "after_failure (a @ b) =
     (if list_ex is_failed_write a then after_failure a @ b else after_failure b)"
  by (induction a) (simp_all add: after_failure_Cons)

lemma silent_loop_failure:
  "after_failure (fst (silent_loop env r s)) = [] \<and>
   (list_ex is_failed_write (fst (silent_loop env r s)) \<longrightarrow> \<not> g_running (snd (silent_loop env r s)))"
proof (induction "unat r" arbitrary: r s rule: less_induct)
  case less
  show ?case
  proof (cases "r = 0")
    case True
    then show ?thesis
      by (simp add: silent_loop_cases after_failure_Nil)
  next
    case False
    let ?s2 = "s\<lparr>g_running := True, reads := Suc (reads s), writes := Suc (writes s)\<rparr>"
    have IH: "after_failure (fst (silent_loop env (r - chunk_of r) ?s2)) = [] \<and>
        (list_ex is_failed_write (fst (silent_loop env (r - chunk_of r) ?s2)) \<longrightarrow>
           \<not> g_running (snd (silent_loop env (r - chunk_of r) ?s2)))"
      by (rule less [OF chunk_less [OF False]])
    show ?thesis
      unfolding silent_loop_cases [of env r s]
      using IH by (simp add: after_failure_Cons after_failure_Nil)
  qed
qed

lemma consume_buffer_failure:
  "after_failure (fst (consume_buffer env fs p s)) = [] \<and>
   (list_ex is_failed_write (fst (consume_buffer env fs p s)) \<longrightarrow>
      \<not> g_running (snd (consume_buffer env fs p s)))"
  by (simp add: consume_buffer_def Let_def silent_loop_failure after_failure_Cons after_failure_Nil)

lemma consume_buffer_stopped:
  "\<not> g_running s \<Longrightarrow> list_all winding_down (fst (consume_buffer env fs p s))"
  by (simp add: consume_buffer_def Let_def silent_loop_stopped)

lemma drain_stopped:
  "drain n env fs s = Some (evs, s') \<Longrightarrow> \<not> g_running s \<Longrightarrow>
     list_all winding_down evs \<and> \<not> g_running s'"
proof (induction rule: drain_induct)
  case (stop s p)
  then show ?case by simp
next
  case (zero s p)
  then show ?case by simp
next
  case (more s p m evs s')
  let ?s1 = "s\<lparr>gets := Suc (gets s)\<rparr>"
  from more.prems have st: "\<not> g_running ?s1" by simp
  from consume_buffer_stays_stopped [OF st] more.IH consume_buffer_stopped [OF st]
  show ?case by simp
qed

lemma drain_stays_stopped:
  "drain n env fs s = Some (evs, s') \<Longrightarrow> g_running s' \<Longrightarrow> g_running s"
  using drain_stopped by blast

lemma capture_loop_stopped:
  "capture_loop n env fs s = Some (evs, s') \<Longrightarrow> \<not> g_running s \<Longrightarrow> evs = [CheckRunning False]"
  by (induction rule: capture_loop_induct) simp_all

lemma drain_failure:
  "drain n env fs s = Some (evs, s') \<Longrightarrow>
     list_all winding_down (after_failure evs) \<and> (list_ex is_failed_write evs \<longrightarrow> \<not> g_running s')"
proof (induction rule: drain_induct)
  case (stop s p)
  then show ?case by (simp add: after_failure_Cons after_failure_Nil)
next
  case (zero s p)
  then show ?case by (simp add: after_failure_Cons after_failure_Nil)
next
  case (more s p m evs s')
  let ?s1 = "s\<lparr>gets := Suc (gets s)\<rparr>"
  let ?c = "consume_buffer env fs p ?s1"
  note cf = consume_buffer_failure [of env fs p ?s1]
  show ?case
  proof (cases "list_ex is_failed_write (fst ?c)")
    case True
    with cf have st: "\<not> g_running (snd ?c)" by simp
    from drain_stopped [OF more.hyps(4) st] True cf show ?thesis
      by (simp add: after_failure_Cons after_failure_append)
  next
    case False
    with more.IH show ?thesis
      by (simp add: after_failure_Cons after_failure_append)
  qed
qed

lemma capture_loop_failure:
  "capture_loop n env fs s = Some (evs, s') \<Longrightarrow> list_all winding_down (after_failure evs)"
proof (induction rule: capture_loop_induct)
  case (exit s)
  then show ?case by (simp add: after_failure_Cons after_failure_Nil)
next
  case (drained s m evs1 s1 evs2 s2)
  note df = drain_failure [OF drained(4)]
  show ?case
  proof (cases "list_ex is_failed_write evs1")
    case True
    with df have "\<not> g_running s1" by simp
    from capture_loop_stopped [OF drained(5) this] have "evs2 = [CheckRunning False]" .
    with True df show ?thesis
      by (simp add: after_failure_Cons after_failure_append)
  next
    case False
    with drained.IH show ?thesis
      by (simp add: after_failure_Cons after_failure_append)
  qed
next
  case (timeout s m evs2 s2)
  then show ?case by (simp add: after_failure_Cons)
qed

lemma startup_no_failed_write:
  "list_all (\<lambda>e. \<not> is_failed_write e) (trace_of (startup env argv))"
  by (simp add: startup_def open_session_def start_capture_def Let_def Wait_def)

lemma drain_terminates:
  "\<exists>j<k. packet_ends (GetBuffer_ret env (gets s + j)) \<Longrightarrow> k \<le> n \<Longrightarrow>
     \<exists>r. drain n env fs s = Some r"
proof (induction n arbitrary: s k)
  case 0
  then show ?case by simp
next
  case (Suc n)
  let ?p = "GetBuffer_ret env (gets s)"
  let ?s1 = "s\<lparr>gets := Suc (gets s)\<rparr>"
  show ?case
  proof (cases "packet_ends ?p")
    case True
    then show ?thesis
      by (auto simp: packet_ends_def Let_def)
  next
    case False
    from Suc.prems(1) obtain j where j: "j < k" "packet_ends (GetBuffer_ret env (gets s + j))"
      by blast
    with False have "j \<noteq> 0"
      by (cases j) auto
    then obtain i where i: "j = Suc i"
      by (cases j) auto
    let ?s2 = "snd (consume_buffer env fs ?p ?s1)"
    have g: "gets ?s2 = Suc (gets s)"
      by (simp add: consume_buffer_counters)
    from j i g have "\<exists>j<k - 1. packet_ends (GetBuffer_ret env (gets ?s2 + j))"
      by (intro exI [of _ i]) simp
    moreover from Suc.prems(2) have "k - 1 \<le> n"
      by simp
    ultimately obtain r where "drain n env fs ?s2 = Some r"
      using Suc.IH by blast
    with False show ?thesis
      by (cases r) (simp add: packet_ends_def Let_def)
  qed
qed

lemma no_failed_write: "list_all (\<lambda>e. \<not> is_failed_write e) evs \<Longrightarrow> \<not> list_ex is_failed_write evs"
  by (simp add: list_all_iff list_ex_iff)

lemma write_calls_append: "write_calls (a @ b) = write_calls a @ write_calls b"
  by (induction a rule: write_calls.induct) simp_all

lemma drain_goes_on_append: "drain_goes_on a \<Longrightarrow> drain_goes_on (a @ b)"
  by (cases a rule: drain_goes_on.cases) simp_all

lemma drain_first:
  "drain n env fs s = Some (evs, s') \<Longrightarrow> \<exists>rest. evs = GetBuffer_event env (gets s) # rest"
  by (induction rule: drain_induct) (simp_all add: GetBuffer_event_def)

lemma drain_failure_goes_on:
  "drain n env fs s = Some (evs, s') \<Longrightarrow> list_ex is_failed_write evs \<Longrightarrow>
     drain_goes_on (after_failure evs)"
proof (induction rule: drain_induct)
  case (stop s p)
  then show ?case by simp
next
  case (zero s p)
  then show ?case by simp
next
  case (more s p m evs s')
  let ?s1 = "s\<lparr>gets := Suc (gets s)\<rparr>"
  let ?c = "consume_buffer env fs p ?s1"
  note cf = consume_buffer_failure [of env fs p ?s1]
  show ?case
  proof (cases "list_ex is_failed_write (fst ?c)")
    case True
    from drain_first [OF more.hyps(4)] obtain rest
      where "evs = GetBuffer_event env (gets (snd ?c)) # rest" by blast
    with True cf show ?thesis
      by (simp add: after_failure_Cons after_failure_append GetBuffer_event_def)
  next
    case False
    with more.prems more.IH show ?thesis
      by (simp add: after_failure_Cons after_failure_append)
  qed
qed

lemma capture_loop_failure_goes_on:
  "capture_loop n env fs s = Some (evs, s') \<Longrightarrow> list_ex is_failed_write evs \<Longrightarrow>
     drain_goes_on (after_failure evs)"
proof (induction rule: capture_loop_induct)
  case (exit s)
  then show ?case by simp
next
  case (drained s m evs1 s1 evs2 s2)
  show ?case
  proof (cases "list_ex is_failed_write evs1")
    case True
    from drain_failure_goes_on [OF drained(4) True]
    have "drain_goes_on (after_failure evs1 @ evs2)"
      by (rule drain_goes_on_append)
    with True show ?thesis
      by (simp add: after_failure_Cons after_failure_append)
  next
    case False
    with drained.prems drained.IH show ?thesis
      by (simp add: after_failure_Cons after_failure_append)
  qed
next
  case (timeout s m evs2 s2)
  then show ?case by (simp add: after_failure_Cons)
qed

lemma consume_buffer_no_GetBuffer: "filter is_GetBuffer (fst (consume_buffer env fs p s)) = []"
proof -
  have "\<not> is_GetBuffer e" if "\<not> is_buffer_event e" for e
    using that by (cases e) simp_all
  with consume_buffer_events [of env fs p s] show ?thesis
    by (auto simp: list_all_iff filter_empty_conv)
qed

lemma drain_calls:
  "drain n env fs s = Some (evs, s') \<Longrightarrow>
     gets s < gets s' \<and>
     filter is_GetBuffer evs = map (GetBuffer_event env) [gets s ..< gets s'] \<and>
     packet_ends (GetBuffer_ret env (gets s' - 1)) \<and>
     (\<forall>i. gets s \<le> i \<and> i < gets s' - 1 \<longrightarrow> \<not> packet_ends (GetBuffer_ret env i))"
proof (induction rule: drain_induct)
  case (stop s p)
  then show ?case
    by (auto simp: GetBuffer_event_def packet_ends_def)
next
  case (zero s p)
  then show ?case
    by (auto simp: GetBuffer_event_def packet_ends_def)
next
  case (more s p m evs s')
  let ?s1 = "s\<lparr>gets := Suc (gets s)\<rparr>"
  let ?c = "consume_buffer env fs p ?s1"
  have g: "gets (snd ?c) = Suc (gets s)"
    by (simp add: consume_buffer_counters)
  from more.IH g have lt: "Suc (gets s) < gets s'"
    and calls: "filter is_GetBuffer evs = map (GetBuffer_event env) [Suc (gets s) ..< gets s']"
    and last: "packet_ends (GetBuffer_ret env (gets s' - 1))"
    and before: "\<forall>i. Suc (gets s) \<le> i \<and> i < gets s' - 1 \<longrightarrow> \<not> packet_ends (GetBuffer_ret env i)"
    by simp_all
  from more.hyps(1,2,3) have here: "\<not> packet_ends (GetBuffer_ret env (gets s))"
    by (simp add: packet_ends_def)
  from lt have upt: "[gets s ..< gets s'] = gets s # [Suc (gets s) ..< gets s']"
    by (simp add: upt_conv_Cons)
  have 1: "gets s < gets s'"
    using lt by simp
  have 2: "filter is_GetBuffer (GetBuffer (pk_hr p) (pk_frames p) (pk_flags p) # fst ?c @
             ReleaseBuffer (pk_frames p) # evs) = map (GetBuffer_event env) [gets s ..< gets s']"
    using more.hyps(1) calls
    by (simp add: upt consume_buffer_no_GetBuffer GetBuffer_event_def)
  have 3: "\<forall>i. gets s \<le> i \<and> i < gets s' - 1 \<longrightarrow> \<not> packet_ends (GetBuffer_ret env i)"
  proof (intro allI impI)
    fix i
    assume i: "gets s \<le> i \<and> i < gets s' - 1"
    show "\<not> packet_ends (GetBuffer_ret env i)"
    proof (cases "i = gets s")
      case True
      with here show ?thesis by simp
    next
      case False
      with i have "Suc (gets s) \<le> i \<and> i < gets s' - 1" by simp
      with before show ?thesis by blast
    qed
  qed
  from 1 2 last 3 show ?case by blast
qed

lemma consume_buffer_stopped_writes:
  "\<not> g_running s \<Longrightarrow>
     write_calls (fst (consume_buffer env fs p s)) =
       (if pk_flags p AND AUDCLNT_BUFFERFLAGS_SILENT = 0
        then [(SampleBuf (pk_data p), pk_frames p * fs)] else [])"
  by (simp add: consume_buffer_def Let_def silent_loop_stopped)

lemma drain_stopped_writes:
  "drain n env fs s = Some (evs, s') \<Longrightarrow> \<not> g_running s \<Longrightarrow>
     write_calls evs = map (sample_write env fs) (filter (not_silent env) [gets s ..< gets s' - 1])"
proof (induction rule: drain_induct)
  case (stop s p)
  then show ?case by simp
next
  case (zero s p)
  then show ?case by simp
next
  case (more s p m evs s')
  let ?s1 = "s\<lparr>gets := Suc (gets s)\<rparr>"
  let ?c = "consume_buffer env fs p ?s1"
  have g: "gets (snd ?c) = Suc (gets s)"
    by (simp add: consume_buffer_counters)
  from more.prems have st: "\<not> g_running ?s1" by simp
  from consume_buffer_stays_stopped [OF st] more.IH g
  have IH: "write_calls evs = map (sample_write env fs) (filter (not_silent env) [Suc (gets s) ..< gets s' - 1])"
    by simp
  from drain_calls [OF more.hyps(4)] g have "Suc (gets s) < gets s'"
    by simp
  then have upt: "[gets s ..< gets s' - Suc 0] = gets s # [Suc (gets s) ..< gets s' - Suc 0]"
    by (simp add: upt_conv_Cons)
  have c: "write_calls (fst ?c) =
      (if not_silent env (gets s) then [sample_write env fs (gets s)] else [])"
    using more.hyps(1) consume_buffer_stopped_writes [OF st, of env fs p]
    by (simp add: sample_write_def not_silent_def)
  show ?case
    using IH by (simp add: upt write_calls_append c)
qed

text \<open>
  C2, as stated, fails: when the consumer has gone and two packets are queued, the write of
  the first returns \<open>-1\<close>, and after it the drain goes on with a second \<^verbatim>\<open>GetBuffer\<close>
  that succeeds, a second write, and a third \<^verbatim>\<open>GetBuffer\<close>, before the loop ends and the
  program leaves with code 0.
\<close>

theorem C2_counterexample:
  "wmain 4 broken_pipe_platform example_argv \<noteq> None \<and>
   fst (the (wmain 4 broken_pipe_platform example_argv)) = 0 \<and>
   after_failure (snd (the (wmain 4 broken_pipe_platform example_argv))) =
     [ReleaseBuffer 1, GetBuffer S_OK 1 0, Write (SampleBuf [1, 2, 3, 4, 5, 6, 7, 8]) 8 (- 1),
      ReleaseBuffer 1, GetBuffer AUDCLNT_S_BUFFER_EMPTY 0 0, CheckRunning False,
      Fprintf StoppingCapture, Stop, CaptureClientRelease, AudioClientRelease, CloseHandle,
      CoUninitialize] \<and>
   list_ex is_GetBuffer (after_failure (snd (the (wmain 4 broken_pipe_platform example_argv)))) \<and>
   list_ex is_data_write (after_failure (snd (the (wmain 4 broken_pipe_platform example_argv))))"
  by code_simp

text \<open>
  C2, amended: a write of the capture loop that returns a value \<open>\<le> 0\<close> clears the flag and is
  the last thing done with its buffer: a silent run writes no further chunk. In every run
  that returns and has such a write, the exit code is 0, and after the first such write there
  is no wait on the capture event, no write of zeros and no read of the flag that finds it
  set; the run ends with a read of the flag that finds it cleared and the cleanup, which stops
  the endpoint. The drain in progress is not cut short: right after the write that failed
  the buffer is released and \<^verbatim>\<open>GetBuffer\<close> is called again. A drain that returns has
  called \<^verbatim>\<open>GetBuffer\<close> for every packet of the queue up to the first that reports empty,
  a failure or no frame, whatever the flag; when it starts with the flag cleared, its writes
  are those of the packets that are not silent, one for each and in order. When the queue
  ends within the fuel, such a drain returns and the loop leaves at its next read of the
  flag.
\<close>

theorem C2_after_write_failure:
  "(wmain fuel env argv = Some (code, tr) \<and> list_ex is_failed_write tr \<longrightarrow>
      code = 0 \<and> list_all winding_down (after_failure tr) \<and> Stop \<in> set (after_failure tr) \<and>
      (\<exists>pre. tr = pre @ CheckRunning False # cleanup) \<and> drain_goes_on (after_failure tr)) \<and>
   (list_ex is_failed_write (fst (consume_buffer env fs p s)) \<longrightarrow>
      after_failure (fst (consume_buffer env fs p s)) = [] \<and>
      \<not> g_running (snd (consume_buffer env fs p s))) \<and>
   (\<not> g_running s \<and> (\<exists>j<k. packet_ends (GetBuffer_ret env (gets s + j))) \<and> k \<le> n \<longrightarrow>
      (\<exists>evs s'. drain n env fs s = Some (evs, s') \<and> list_all winding_down evs \<and> \<not> g_running s' \<and>
         capture_loop (Suc m) env fs s' =
           Some ([CheckRunning False], s'\<lparr>g_running := False, reads := Suc (reads s')\<rparr>) \<and>
         write_calls evs =
           map (sample_write env fs) (filter (not_silent env) [gets s ..< gets s' - 1]))) \<and>
   (drain d env fs q = Some (qevs, q') \<longrightarrow>
      gets q < gets q' \<and>
      filter is_GetBuffer qevs = map (GetBuffer_event env) [gets q ..< gets q'] \<and>
      packet_ends (GetBuffer_ret env (gets q' - 1)) \<and>
      (\<forall>i. gets q \<le> i \<and> i < gets q' - 1 \<longrightarrow> \<not> packet_ends (GetBuffer_ret env i)))"
proof -
  have a: "code = 0 \<and> list_all winding_down (after_failure tr) \<and> Stop \<in> set (after_failure tr) \<and>
      (\<exists>pre. tr = pre @ CheckRunning False # cleanup) \<and> drain_goes_on (after_failure tr)"
    if run: "wmain fuel env argv = Some (code, tr)" and failed: "list_ex is_failed_write tr"
  proof -
    from wmain_Some [OF run] consider
      (exit) "startup env argv = Exit 1 tr"
      | (loop) t evs st h frameSize where "code = 0" "startup env argv = Capturing t h frameSize"
          "capture_loop fuel env frameSize loop_start = Some (evs, st)" "tr = t @ evs @ cleanup"
      by blast
    then show ?thesis
    proof cases
      case exit
      with startup_no_failed_write [of env argv] have "\<not> list_ex is_failed_write tr"
        by (simp add: no_failed_write)
      with failed show ?thesis by simp
    next
      case loop
      from startup_no_failed_write [of env argv] loop(2)
      have t: "\<not> list_ex is_failed_write t"
        by (simp add: no_failed_write)
      have c: "\<not> list_ex is_failed_write cleanup"
        by (simp add: cleanup_def)
      from failed t c have e: "list_ex is_failed_write evs"
        by (simp add: loop(4))
      from t e have af: "after_failure tr = after_failure evs @ cleanup"
        by (simp add: loop(4) after_failure_append)
      have wd: "list_all winding_down cleanup"
        by (simp add: cleanup_def)
      have stop: "Stop \<in> set cleanup"
        by (simp add: cleanup_def)
      from capture_loop_failure_goes_on [OF loop(3) e]
      have "drain_goes_on (after_failure evs @ cleanup)"
        by (rule drain_goes_on_append)
      with af have on: "drain_goes_on (after_failure tr)"
        by simp
      from capture_loop_final [OF loop(3)] have "evs = butlast evs @ [CheckRunning False]"
        using append_butlast_last_id [of evs] by simp
      then have "tr = (t @ butlast evs) @ CheckRunning False # cleanup"
        by (simp add: loop(4))
      with capture_loop_failure [OF loop(3)] af wd stop loop(1) on show ?thesis
        by auto
    qed
  qed
  have b: "after_failure (fst (consume_buffer env fs p s)) = [] \<and>
      \<not> g_running (snd (consume_buffer env fs p s))"
    if "list_ex is_failed_write (fst (consume_buffer env fs p s))"
    using that consume_buffer_failure [of env fs p s] by simp
  have c: "\<exists>evs s'. drain n env fs s = Some (evs, s') \<and> list_all winding_down evs \<and> \<not> g_running s' \<and>
         capture_loop (Suc m) env fs s' =
           Some ([CheckRunning False], s'\<lparr>g_running := False, reads := Suc (reads s')\<rparr>) \<and>
         write_calls evs =
           map (sample_write env fs) (filter (not_silent env) [gets s ..< gets s' - 1])"
    if st: "\<not> g_running s" and ends: "\<exists>j<k. packet_ends (GetBuffer_ret env (gets s + j))"
      and fuel: "k \<le> n"
  proof -
    from drain_terminates [OF ends fuel] obtain evs s' where d: "drain n env fs s = Some (evs, s')"
      by (metis surj_pair)
    from drain_stopped [OF d st] have s': "list_all winding_down evs \<and> \<not> g_running s'" .
    then have "capture_loop (Suc m) env fs s' =
        Some ([CheckRunning False], s'\<lparr>g_running := False, reads := Suc (reads s')\<rparr>)"
      by (simp add: read_running_fst read_running_snd)
    with d s' drain_stopped_writes [OF d st] show ?thesis by blast
  qed
  have e: "gets q < gets q' \<and>
      filter is_GetBuffer qevs = map (GetBuffer_event env) [gets q ..< gets q'] \<and>
      packet_ends (GetBuffer_ret env (gets q' - 1)) \<and>
      (\<forall>i. gets q \<le> i \<and> i < gets q' - 1 \<longrightarrow> \<not> packet_ends (GetBuffer_ret env i))"
    if "drain d env fs q = Some (qevs, q')"
    using that by (rule drain_calls)
  from a b c e show ?thesis by blast
qed

theorem C2_after_write_failure_witness:
  "wmain 4 broken_pipe_platform example_argv \<noteq> None \<and>
   list_ex is_failed_write (snd (the (wmain 4 broken_pipe_platform example_argv))) \<and>
   fst (the (wmain 4 broken_pipe_platform example_argv)) = 0 \<and>
   Stop \<in> set (after_failure (snd (the (wmain 4 broken_pipe_platform example_argv)))) \<and>
   drain_goes_on (after_failure (snd (the (wmain 4 broken_pipe_platform example_argv)))) \<and>
   list_ex is_failed_write
     (fst (consume_buffer broken_pipe_platform 8 (GetBuffer_ret broken_pipe_platform 0) loop_start)) \<and>
   \<not> g_running
     (snd (consume_buffer broken_pipe_platform 8 (GetBuffer_ret broken_pipe_platform 0) loop_start)) \<and>
   \<not> g_running \<lparr>g_running = False, reads = 1, waits = 1, gets = 1, writes = 2\<rparr> \<and>
   packet_ends (GetBuffer_ret broken_pipe_platform
     (gets \<lparr>g_running = False, reads = 1, waits = 1, gets = 1, writes = 2\<rparr> + 1)) \<and>
   drain 2 broken_pipe_platform 8 \<lparr>g_running = False, reads = 1, waits = 1, gets = 1, writes = 2\<rparr>
     \<noteq> None \<and>
   write_calls (fst (the (drain 2 broken_pipe_platform 8
       \<lparr>g_running = False, reads = 1, waits = 1, gets = 1, writes = 2\<rparr>)))
     = [(SampleBuf [1, 2, 3, 4, 5, 6, 7, 8], 8)] \<and>
   drain 3 broken_pipe_platform 8 \<lparr>g_running = True, reads = 1, waits = 1, gets = 0, writes = 1\<rparr>
     \<noteq> None \<and>
   filter is_GetBuffer (fst (the (drain 3 broken_pipe_platform 8
       \<lparr>g_running = True, reads = 1, waits = 1, gets = 0, writes = 1\<rparr>)))
     = [GetBuffer S_OK 1 0, GetBuffer S_OK 1 0, GetBuffer AUDCLNT_S_BUFFER_EMPTY 0 0]"
proof -
  let ?env = broken_pipe_platform
  let ?p = "GetBuffer_ret broken_pipe_platform 0"
  let ?s = "\<lparr>g_running = False, reads = 1, waits = 1, gets = 1, writes = 2\<rparr>"
  let ?start = "\<lparr>g_running = True, reads = 1, waits = 1, gets = 0, writes = 1\<rparr>"
  have w: "wmain 4 ?env example_argv \<noteq> None"
    by code_simp
  then obtain code tr where r: "wmain 4 ?env example_argv = Some (code, tr)"
    by auto
  have "list_ex is_failed_write (snd (the (wmain 4 ?env example_argv)))"
    by code_simp
  with r have f: "list_ex is_failed_write tr"
    by simp
  have g: "list_ex is_failed_write (fst (consume_buffer ?env 8 ?p loop_start))"
    by code_simp
  have st: "\<not> g_running ?s"
    by simp
  have pe: "packet_ends (GetBuffer_ret ?env (gets ?s + 1))"
    by code_simp
  then have ends: "\<exists>j<2. packet_ends (GetBuffer_ret ?env (gets ?s + j))"
    by (intro exI [of _ 1]) simp
  have d0: "drain 3 ?env 8 ?start \<noteq> None"
    by code_simp
  then obtain evs0 s0' where r0: "drain 3 ?env 8 ?start = Some (evs0, s0')"
    by auto
  have "gets (snd (the (drain 3 ?env 8 ?start))) = 3"
    by code_simp
  with r0 have g0: "gets s0' = 3"
    by simp
  have m0: "map (GetBuffer_event ?env) [gets ?start ..< 3] =
      [GetBuffer S_OK 1 0, GetBuffer S_OK 1 0, GetBuffer AUDCLNT_S_BUFFER_EMPTY 0 0]"
    by code_simp
  have "gets (snd (the (drain 2 ?env 8 ?s))) = 3"
    by code_simp
  then have g2: "drain 2 ?env 8 ?s = Some (evs, s') \<Longrightarrow> gets s' = 3" for evs s'
    by simp
  have m2: "map (sample_write ?env 8) (filter (not_silent ?env) [gets ?s ..< 3 - 1]) =
      [(SampleBuf [1, 2, 3, 4, 5, 6, 7, 8], 8)]"
    by code_simp
  note at_run = C2_after_write_failure [where fuel = 4 and env = ?env and argv = example_argv
      and code = code and tr = tr and fs = 8 and p = ?p and s = loop_start]
  note at_drain = C2_after_write_failure [where env = ?env and fs = 8 and s = ?s and k = 2 and n = 2
      and m = 0]
  note at_calls = C2_after_write_failure [where env = ?env and fs = 8 and d = 3 and q = ?start
      and qevs = evs0 and q' = s0']
  from at_run r f have 1: "code = 0" and 2: "Stop \<in> set (after_failure tr)"
    and on: "drain_goes_on (after_failure tr)"
    by blast+
  from at_run g have 3: "\<not> g_running (snd (consume_buffer ?env 8 ?p loop_start))"
    by blast
  from at_drain st ends obtain evs s' where d2: "drain 2 ?env 8 ?s = Some (evs, s')"
    and wc: "write_calls evs = map (sample_write ?env 8) (filter (not_silent ?env) [gets ?s ..< gets s' - 1])"
    by blast
  from d2 have 4: "drain 2 ?env 8 ?s \<noteq> None"
    by simp
  from wc g2 [OF d2] m2 have "write_calls evs = [(SampleBuf [1, 2, 3, 4, 5, 6, 7, 8], 8)]"
    by simp
  with d2 have 8: "write_calls (fst (the (drain 2 ?env 8 ?s))) = [(SampleBuf [1, 2, 3, 4, 5, 6, 7, 8], 8)]"
    by simp
  from at_calls r0 have "filter is_GetBuffer evs0 = map (GetBuffer_event ?env) [gets ?start ..< gets s0']"
    by blast
  with g0 m0 r0 have 9: "filter is_GetBuffer (fst (the (drain 3 ?env 8 ?start))) =
      [GetBuffer S_OK 1 0, GetBuffer S_OK 1 0, GetBuffer AUDCLNT_S_BUFFER_EMPTY 0 0]"
    by simp
  from r f 1 2 on have 5: "list_ex is_failed_write (snd (the (wmain 4 ?env example_argv)))"
    and 6: "fst (the (wmain 4 ?env example_argv)) = 0"
    and 7: "Stop \<in> set (after_failure (snd (the (wmain 4 ?env example_argv))))"
    and on': "drain_goes_on (after_failure (snd (the (wmain 4 ?env example_argv))))"
    by simp_all
  from w 5 6 7 on' g 3 st pe 4 8 d0 9 show ?thesis
    by blast
qed

end
